theory Spec2Isabelle
  imports Complex_Main "HOL-Library.Sublist"
begin

section \<open>pyEnsemblRest: the client of \<^verbatim>\<open>ensemblrest/ensemblrest.py\<close>\<close>

text \<open>
  The module defines the class \<^verbatim>\<open>EnsemblRest\<close> (constructor, \<^verbatim>\<open>register_api_func\<close>,
  \<^verbatim>\<open>call_api_func\<close>) and its subclass \<^verbatim>\<open>EnsemblGenomeRest\<close>. The embedding follows the
  Python statement by statement:
  \<^item> a dictionary is a map; \<^verbatim>\<open>d.update(e)\<close> is \<open>d ++ e\<close>, \<^verbatim>\<open>del d[k]\<close> is \<open>d(k := None)\<close>
    and raises \<^verbatim>\<open>KeyError\<close> when \<open>k\<close> is absent;
  \<^item> every \<^verbatim>\<open>raise\<close> is a value \<open>Inl\<close> of the result, the instance after the call is returned
    with it, and what the call does to the outside (a critical log record, a sleep, an HTTP
    request) is returned as a list of events in the order of execution;
  \<^item> what the outside gives back to one call is the record \<open>env\<close>: the two readings of
    \<^verbatim>\<open>time.time()\<close> and the reply of the HTTP session;
  \<^item> the constants of \<^verbatim>\<open>ensembl_config\<close> are the fields of the record \<open>config\<close>, a parameter of
    every operation;
  \<^item> what the Python library does with a value of an argument is a parameter as well:
    \<open>loads\<close> is \<^verbatim>\<open>json.loads\<close>, with \<open>None\<close> for its \<^verbatim>\<open>ValueError\<close>; \<open>fmt\<close> is the conversion
    \<^verbatim>\<open>"%s" % value\<close>, which returns a string or raises (\<^verbatim>\<open>TypeError\<close> for a tuple that has
    not exactly one component); \<open>dumps\<close> gives the exception that \<^verbatim>\<open>json.dumps\<close> raises for a
    dictionary, if it raises one (the event of a POST carries the dictionary that is
    serialised); \<open>items\<close> is the order in which a dictionary yields its entries, which
    Python 2 leaves open;
  \<^item> the headers of the session are the \<^verbatim>\<open>CaseInsensitiveDict\<close> of \<^verbatim>\<open>requests\<close>: entries
    are stored under the lower-case form of the key;
  \<^item> time is a real number; debug log records are not modelled.
\<close>

subsection \<open>Data\<close>

type_synonym header_dict = "string \<rightharpoonup> string"

type_synonym 'v kwargs = "string \<rightharpoonup> 'v"

text \<open>The store of a \<^verbatim>\<open>CaseInsensitiveDict\<close>: the lower-case form of a key is mapped to
  the key as it was last set and its value.\<close>

type_synonym ci_dict = "string \<rightharpoonup> string \<times> string"

text \<open>An entry of \<^verbatim>\<open>ensembl_api_table\<close>: \<^verbatim>\<open>func['method']\<close>, \<^verbatim>\<open>func['url']\<close>,
  \<^verbatim>\<open>func['content_type']\<close> and the optional \<^verbatim>\<open>func['doc']\<close>.\<close>

record endpoint =
  http_method :: string
  url :: string
  content_type :: string
  doc :: "string option"

text \<open>The names imported from \<^verbatim>\<open>ensembl_config\<close> (line 37). The status-code table maps a code
  to a pair, of which the code reads component \<^verbatim>\<open>[1]\<close>.\<close>

record config =
  ensembl_default_url :: string
  ensembl_genomes_url :: string
  ensembl_api_table :: "(string \<times> endpoint) list"
  ensembl_http_status_codes :: "(int \<times> string \<times> string) list"
  ensembl_user_agent :: header_dict
  ensembl_content_type :: header_dict

text \<open>A value produced by \<^verbatim>\<open>json.loads\<close>; an object is a list of distinct keys with their
  values.\<close>

datatype json =
    JNull
  | JBool bool
  | JInt int
  | JFloat real
  | JStr string
  | JArr "json list"
  | JObj "(string \<times> json) list"

text \<open>The response object: \<^verbatim>\<open>resp.status_code\<close> and \<^verbatim>\<open>resp.text\<close>.\<close>

record response =
  status_code :: int
  body_text :: string

text \<open>What \<^verbatim>\<open>call_api_func\<close> returns: the decoded structure or the raw text.\<close>

datatype content = Json json | Text string

text \<open>The exceptions that leave the code. \<open>EnsemblRestError message error_code\<close> and
  \<open>EnsemblRestRateLimitError message error_code\<close> are the two classes of
  \<^verbatim>\<open>ensemblrest.exceptions\<close> the code raises, with the arguments of the constructor call;
  a message taken from the status-code table is the string \<open>JStr\<close> of it.
  \<open>RequestException\<close> stands for whatever the HTTP session raises instead of returning.\<close>

datatype pyexn =
    KeyError
  | TypeError
  | ValueError
  | Exception string
  | NotImplementedError string
  | EnsemblRestError json int
  | EnsemblRestRateLimitError json int
  | RequestException

text \<open>The effects of a call, in order: \<^verbatim>\<open>logger.critical(msg)\<close>, \<^verbatim>\<open>time.sleep(d)\<close>,
  \<^verbatim>\<open>session.get(url, headers=, params=)\<close> and \<^verbatim>\<open>session.post(url, headers=, data=)\<close>.\<close>

datatype 'v event =
    Critical string
  | Sleep real
  | Get string header_dict "'v kwargs"
  | Post string header_dict "'v kwargs"

text \<open>What the outside returns during one call: \<^verbatim>\<open>time.time()\<close> at line 128 and at line 131,
  and the response of \<^verbatim>\<open>session.get\<close>/\<^verbatim>\<open>session.post\<close> (\<open>None\<close> when the session raises).\<close>

record env =
  time_check :: real
  time_reset :: real
  reply :: "response option"

text \<open>The instance: the attributes set by \<^verbatim>\<open>__init__\<close> and by \<^verbatim>\<open>call_api_func\<close>, with the
  three attributes of \<^verbatim>\<open>self.session\<close> the code writes. \<open>api_funcs\<close> lists the callables put
  into \<^verbatim>\<open>self.__dict__\<close>, each with its \<^verbatim>\<open>__doc__\<close>.\<close>

record 'a EnsemblRest =
  session_args :: "string \<rightharpoonup> 'a"
  reqs_per_sec :: int
  req_count :: int
  last_req :: real
  session_base_url :: string
  session_proxies :: "string \<rightharpoonup> string"
  session_headers :: ci_dict
  api_funcs :: "(string \<times> string option) list"
  last_response :: "response option"

text \<open>The keyword arguments of the constructor. \<^verbatim>\<open>headers\<close> is a reference to the caller's
  dictionary: an address of the store of dictionaries.\<close>

type_synonym addr = nat

type_synonym store = "addr \<Rightarrow> header_dict"

record 'a init_kwargs =
  kw_base_url :: "string option"
  kw_headers :: "addr option"
  kw_proxies :: "(string \<rightharpoonup> string) option"
  kw_other :: "string \<rightharpoonup> 'a"

subsection \<open>The regular expression \<^verbatim>\<open>\{\{(?P<m>[a-zA-Z_]+)\}\}\<close>\<close>

definition ident_chars :: string where
  "ident_chars = ''abcdefghijklmnopqrstuvwxyzABCDEFGHIJKLMNOPQRSTUVWXYZ_''"

definition is_ident :: "char \<Rightarrow> bool" where
  "is_ident c = (c \<in> set ident_chars)"

text \<open>A match at the start of \<open>s\<close>: two opening braces, the longest non-empty run of
  identifier characters (the greedy \<^verbatim>\<open>+\<close>; a shorter run is followed by an identifier
  character, never by a brace), two closing braces. The result is group 1 and the text
  after the match.\<close>

definition match_token :: "string \<Rightarrow> (string \<times> string) option" where
  "match_token s =
     (case s of
        c1 # c2 # r \<Rightarrow>
          if c1 = CHR ''{'' \<and> c2 = CHR ''{'' then
            (let name = takeWhile is_ident r; rest = dropWhile is_ident r
             in if name \<noteq> [] \<and> take 2 rest = ''}}'' then Some (name, drop 2 rest) else None)
          else None
      | _ \<Rightarrow> None)"

text \<open>\<^verbatim>\<open>re.findall(pattern, s)\<close>: group 1 of the non-overlapping matches, left to right.\<close>

function re_findall :: "string \<Rightarrow> string list" where
  "re_findall [] = []"
| "re_findall (c # cs) =
     (case match_token (c # cs) of
        Some (name, rest) \<Rightarrow> name # re_findall rest
      | None \<Rightarrow> re_findall cs)"
  by pat_completeness auto
termination
proof (relation "measure length")
  show "wf (measure length)" by simp
next
  fix c cs x2 x y
  assume m: "match_token (c # cs) = Some x2" and x2: "(x, y) = x2"
  have "length (dropWhile is_ident r) \<le> length r" for r
    by (rule length_dropWhile_le)
  then have "length (drop 2 (dropWhile is_ident r)) < length (a # b # r)" for a b r
    by (simp add: less_Suc_eq_le le_SucI diff_le_mono2 le_diff_conv)
  with m x2 have "length y < length (c # cs)"
    by (auto simp: match_token_def Let_def split: list.splits if_splits)
  then show "(y, c # cs) \<in> measure length" by simp
next
  fix c :: char and cs :: string
  show "(cs, c # cs) \<in> measure length" by simp
qed

text \<open>\<^verbatim>\<open>re.sub(pattern, repl, s)\<close> with a function \<open>repl\<close> of group 1: the matches are
  visited from left to right, every match is replaced by what \<open>repl\<close> returns for it and
  the text between matches is kept; an exception raised by \<open>repl\<close> leaves \<^verbatim>\<open>re.sub\<close>.\<close>

function re_sub :: "(string \<Rightarrow> pyexn + string) \<Rightarrow> string \<Rightarrow> pyexn + string" where
  "re_sub repl [] = Inr []"
| "re_sub repl (c # cs) =
     (case match_token (c # cs) of
        Some (name, rest) \<Rightarrow>
          (case repl name of
             Inl ex \<Rightarrow> Inl ex
           | Inr s \<Rightarrow> (case re_sub repl rest of Inl ex \<Rightarrow> Inl ex | Inr t \<Rightarrow> Inr (s @ t)))
      | None \<Rightarrow> (case re_sub repl cs of Inl ex \<Rightarrow> Inl ex | Inr t \<Rightarrow> Inr (c # t)))"
  by pat_completeness auto
termination
proof (relation "measure (\<lambda>(repl, s). length s)")
  show "wf (measure (\<lambda>(repl :: string \<Rightarrow> pyexn + string, s :: string). length s))" by simp
next
  fix repl :: "string \<Rightarrow> pyexn + string" and c cs x2 x y
  assume m: "match_token (c # cs) = Some x2" and x2: "(x, y) = x2"
  have "length (dropWhile is_ident r) \<le> length r" for r
    by (rule length_dropWhile_le)
  then have "length (drop 2 (dropWhile is_ident r)) < length (a # b # r)" for a b r
    by (simp add: less_Suc_eq_le le_SucI diff_le_mono2 le_diff_conv)
  with m x2 have "length y < length (c # cs)"
    by (auto simp: match_token_def Let_def split: list.splits if_splits)
  then show "((repl, y), (repl, c # cs)) \<in> measure (\<lambda>(repl, s). length s)" by simp
next
  fix repl :: "string \<Rightarrow> pyexn + string" and c :: char and cs :: string
  show "((repl, cs), (repl, c # cs)) \<in> measure (\<lambda>(repl, s). length s)" by simp
qed

subsection \<open>String formatting\<close>

text \<open>\<^verbatim>\<open>repr\<close> of a string of identifier characters, and \<^verbatim>\<open>"%s"\<close> of a list of such
  strings: \<^verbatim>\<open>['species', 'id']\<close>.\<close>

definition py_repr :: "string \<Rightarrow> string" where
  "py_repr s = CHR 0x27 # s @ [CHR 0x27]"

fun join :: "string \<Rightarrow> string list \<Rightarrow> string" where
  "join sep [] = []"
| "join sep [x] = x"
| "join sep (x # y # ys) = x @ sep @ join sep (y # ys)"

definition py_str_list :: "string list \<Rightarrow> string" where
  "py_str_list xs = ''['' @ join '', '' (map py_repr xs) @ '']''"

text \<open>\<^verbatim>\<open>"%s" % value\<close> for two kinds of argument values, a string and a tuple of strings:
  a string is formatted as itself, a tuple supplies the arguments of the format, so its
  only component is formatted when it has one, and \<^verbatim>\<open>TypeError\<close> is raised when it has
  none or more than one.\<close>

datatype pyvalue = PyStr string | PyTuple "string list"

fun py_format :: "pyvalue \<Rightarrow> pyexn + string" where
  "py_format (PyStr s) = Inr s"
| "py_format (PyTuple [s]) = Inr s"
| "py_format (PyTuple ss) = Inl TypeError"

text \<open>\<^verbatim>\<open>key.lower()\<close> on the letters A to Z.\<close>

definition lower_char :: "char \<Rightarrow> char" where
  "lower_char c =
     (case map_of (zip ''ABCDEFGHIJKLMNOPQRSTUVWXYZ'' ''abcdefghijklmnopqrstuvwxyz'') c of
        Some l \<Rightarrow> l
      | None \<Rightarrow> c)"

definition py_lower :: "string \<Rightarrow> string" where
  "py_lower s = map lower_char s"

subsection \<open>The headers of the session\<close>

text \<open>\<^verbatim>\<open>CaseInsensitiveDict.__setitem__\<close>, \<^verbatim>\<open>__getitem__\<close> (as \<^verbatim>\<open>get\<close>) and \<^verbatim>\<open>update\<close>
  with the entries of a dictionary in the order in which it yields them: each entry is
  set in turn, so of two keys with the same lower-case form the later one stays.\<close>

definition ci_set :: "ci_dict \<Rightarrow> string \<Rightarrow> string \<Rightarrow> ci_dict" where
  "ci_set d k v = d(py_lower k \<mapsto> (k, v))"

definition ci_get :: "ci_dict \<Rightarrow> string \<Rightarrow> string option" where
  "ci_get d k = map_option snd (d (py_lower k))"

definition ci_update :: "ci_dict \<Rightarrow> (string \<times> string) list \<Rightarrow> ci_dict" where
  "ci_update d entries = fold (\<lambda>(k, v) d'. ci_set d' k v) entries d"

subsection \<open>\<^verbatim>\<open>EnsemblRest.call_api_func\<close>\<close>

text \<open>Lines 123-124: \<^verbatim>\<open>for param in mandatory_params: del(kwargs[param])\<close>.\<close>

fun del_params :: "string list \<Rightarrow> 'v kwargs \<Rightarrow> pyexn + 'v kwargs" where
  "del_params [] kwargs = Inr kwargs"
| "del_params (param # ps) kwargs =
     (case kwargs param of
        None \<Rightarrow> Inl KeyError
      | Some v \<Rightarrow> del_params ps (kwargs(param := None)))"

text \<open>Line 117: the callable given to \<^verbatim>\<open>re.sub\<close>, \<^verbatim>\<open>"%s" % kwargs.get(m.group(1))\<close>
  (\<^verbatim>\<open>None\<close> is formatted as \<^verbatim>\<open>None\<close>; the conversion of a value may raise), and the
  substitution, which runs over the base URL and the template together.\<close>

definition repl_of :: "('v \<Rightarrow> pyexn + string) \<Rightarrow> 'v kwargs \<Rightarrow> string \<Rightarrow> pyexn + string" where
  "repl_of fmt kwargs name = (case kwargs name of None \<Rightarrow> Inr ''None'' | Some v \<Rightarrow> fmt v)"

definition resolve_url ::
  "('v \<Rightarrow> pyexn + string) \<Rightarrow> string \<Rightarrow> string \<Rightarrow> 'v kwargs \<Rightarrow> pyexn + string" where
  "resolve_url fmt base template kwargs = re_sub (repl_of fmt kwargs) (base @ template)"

text \<open>Lines 107-124: the table lookup, the check of the mandatory parameters, the URL and
  the removal of the mandatory parameters. The result is the exception raised, or the
  entry, the resolved URL and the remaining arguments; with it, the log records written.\<close>

definition prepare ::
  "config \<Rightarrow> ('v \<Rightarrow> pyexn + string) \<Rightarrow> 'a EnsemblRest \<Rightarrow> string \<Rightarrow> 'v kwargs \<Rightarrow>
   (pyexn + endpoint \<times> string \<times> 'v kwargs) \<times> 'v event list" where
  "prepare cfg fmt self api_call kwargs =
     (case map_of (ensembl_api_table cfg) api_call of
        None \<Rightarrow> (Inl KeyError, [])
      | Some func \<Rightarrow>
          (let mandatory_params = re_findall (url func) in
           case find (\<lambda>param. kwargs param = None) mandatory_params of
             Some param \<Rightarrow>
               (Inl (Exception (''mandatory param '' @ py_repr param @ '' not specified'')),
                [Critical (py_repr param @ '' param not specified. Mandatory params are ''
                           @ py_str_list mandatory_params)])
           | None \<Rightarrow>
               (case resolve_url fmt (session_base_url self) (url func) kwargs of
                  Inl ex \<Rightarrow> (Inl ex, [])
                | Inr u \<Rightarrow>
                    (case del_params mandatory_params kwargs of
                       Inl ex \<Rightarrow> (Inl ex, [])
                     | Inr kwargs' \<Rightarrow> (Inr (func, u, kwargs'), [])))))"

text \<open>Lines 127-132: the request counter against the limit per second.\<close>

definition throttle :: "env \<Rightarrow> 'a EnsemblRest \<Rightarrow> 'a EnsemblRest \<times> 'v event list" where
  "throttle e self =
     (if req_count self \<ge> reqs_per_sec self then
        (let delta = time_check e - last_req self
         in (self\<lparr>last_req := time_reset e, req_count := 0\<rparr>,
             if delta < 1 then [Sleep (1 - delta)] else []))
      else (self, []))"

text \<open>Lines 164 and 168: \<^verbatim>\<open>ensembl_http_status_codes[resp.status_code][1]\<close>.\<close>

definition status_message :: "config \<Rightarrow> int \<Rightarrow> pyexn + json" where
  "status_message cfg code =
     (case map_of (ensembl_http_status_codes cfg) code of
        None \<Rightarrow> Inl KeyError
      | Some (short, msg) \<Rightarrow> Inr (JStr msg))"

text \<open>Lines 158-168: the message of the error. \<^verbatim>\<open>json.loads(resp.text)["error"]\<close> raises
  \<^verbatim>\<open>ValueError\<close> when the text does not decode, \<^verbatim>\<open>TypeError\<close> when the decoded value is
  not an object, and \<^verbatim>\<open>KeyError\<close> when the object has no such key; only the last one is
  caught.\<close>

definition error_message :: "config \<Rightarrow> (string \<Rightarrow> json option) \<Rightarrow> response \<Rightarrow> pyexn + json" where
  "error_message cfg loads resp =
     (if status_code resp = 400 then
        (case loads (body_text resp) of
           None \<Rightarrow> Inl ValueError
         | Some (JObj kvs) \<Rightarrow>
             (case map_of kvs ''error'' of
                Some message \<Rightarrow> Inr message
              | None \<Rightarrow> status_message cfg (status_code resp))
         | Some _ \<Rightarrow> Inl TypeError)
      else status_message cfg (status_code resp))"

text \<open>Lines 154-184: the status code decides between the error and the content.\<close>

definition classify ::
  "config \<Rightarrow> (string \<Rightarrow> json option) \<Rightarrow> endpoint \<Rightarrow> response \<Rightarrow> pyexn + content" where
  "classify cfg loads func resp =
     (if status_code resp > 304 then
        (case error_message cfg loads resp of
           Inl ex \<Rightarrow> Inl ex
         | Inr message \<Rightarrow>
             if status_code resp = 429
             then Inl (EnsemblRestRateLimitError message (status_code resp))
             else Inl (EnsemblRestError message (status_code resp)))
      else if content_type func = ''application/json'' then
        (case loads (body_text resp) of
           None \<Rightarrow> Inl ValueError
         | Some j \<Rightarrow> Inr (Json j))
      else Inr (Text (body_text resp)))"

text \<open>Lines 135-184 once the request is built: the session is called; when it returns,
  the counter is incremented, the response recorded and then classified.\<close>

definition perform ::
  "config \<Rightarrow> (string \<Rightarrow> json option) \<Rightarrow> endpoint \<Rightarrow> env \<Rightarrow> 'a EnsemblRest \<Rightarrow> 'v event \<Rightarrow>
   (pyexn + content) \<times> 'a EnsemblRest \<times> 'v event list" where
  "perform cfg loads func e self request =
     (case reply e of
        None \<Rightarrow> (Inl RequestException, self, [request])
      | Some resp \<Rightarrow>
          (classify cfg loads func resp,
           self\<lparr>req_count := req_count self + 1, last_response := Some resp\<rparr>,
           [request]))"

text \<open>Lines 135-145: the request by method. For a POST the argument
  \<^verbatim>\<open>json.dumps(kwargs)\<close> is evaluated first; when it raises, \<^verbatim>\<open>session.post\<close> is not
  called.\<close>

definition send ::
  "config \<Rightarrow> (string \<Rightarrow> json option) \<Rightarrow> ('v kwargs \<rightharpoonup> pyexn) \<Rightarrow> env \<Rightarrow> 'a EnsemblRest \<Rightarrow>
   endpoint \<Rightarrow> string \<Rightarrow> 'v kwargs \<Rightarrow> (pyexn + content) \<times> 'a EnsemblRest \<times> 'v event list" where
  "send cfg loads dumps e self func u kwargs =
     (let hdrs = [''Content-Type'' \<mapsto> content_type func] in
      if http_method func = ''GET'' then perform cfg loads func e self (Get u hdrs kwargs)
      else if http_method func = ''POST'' then
        (case dumps kwargs of
           Some ex \<Rightarrow> (Inl ex, self, [])
         | None \<Rightarrow> perform cfg loads func e self (Post u hdrs kwargs))
      else (Inl (NotImplementedError
                  (''Method '' @ py_repr (http_method func) @ '' not yet implemented'')),
            self, []))"

text \<open>The whole of \<^verbatim>\<open>call_api_func\<close>.\<close>

definition call_api_func ::
  "config \<Rightarrow> (string \<Rightarrow> json option) \<Rightarrow> ('v kwargs \<rightharpoonup> pyexn) \<Rightarrow> ('v \<Rightarrow> pyexn + string) \<Rightarrow> env \<Rightarrow>
   'a EnsemblRest \<Rightarrow> string \<Rightarrow> 'v kwargs \<Rightarrow> (pyexn + content) \<times> 'a EnsemblRest \<times> 'v event list" where
  "call_api_func cfg loads dumps fmt e self api_call kwargs =
     (case prepare cfg fmt self api_call kwargs of
        (Inl ex, logged) \<Rightarrow> (Inl ex, self, logged)
      | (Inr (func, u, kwargs'), logged) \<Rightarrow>
          (case throttle e self of
             (self1, slept) \<Rightarrow>
               (case send cfg loads dumps e self1 func u kwargs' of
                  (result, self2, sent) \<Rightarrow> (result, self2, logged @ slept @ sent))))"

text \<open>\<^verbatim>\<open>register_api_func\<close>: the callable exposed under the name of a table entry.\<close>

definition register_api_func ::
  "config \<Rightarrow> (string \<Rightarrow> json option) \<Rightarrow> ('v kwargs \<rightharpoonup> pyexn) \<Rightarrow> ('v \<Rightarrow> pyexn + string) \<Rightarrow> string \<Rightarrow>
   env \<Rightarrow> 'a EnsemblRest \<Rightarrow> 'v kwargs \<Rightarrow> (pyexn + content) \<times> 'a EnsemblRest \<times> 'v event list" where
  "register_api_func cfg loads dumps fmt api_call =
     (\<lambda>e self kwargs. call_api_func cfg loads dumps fmt e self api_call kwargs)"

text \<open>A sequence of calls on one instance: the events of all of them, in order.\<close>

fun run_calls ::
  "config \<Rightarrow> (string \<Rightarrow> json option) \<Rightarrow> ('v kwargs \<rightharpoonup> pyexn) \<Rightarrow> ('v \<Rightarrow> pyexn + string) \<Rightarrow>
   'a EnsemblRest \<Rightarrow> (env \<times> string \<times> 'v kwargs) list \<Rightarrow> 'v event list" where
  "run_calls cfg loads dumps fmt self [] = []"
| "run_calls cfg loads dumps fmt self ((e, api_call, kwargs) # calls) =
     (case call_api_func cfg loads dumps fmt e self api_call kwargs of
        (result, self', evs) \<Rightarrow> evs @ run_calls cfg loads dumps fmt self' calls)"

text \<open>The durations of the calls of \<^verbatim>\<open>time.sleep\<close> among the events: a call, or a
  sequence of calls, blocks when this list is not empty.\<close>

definition sleeps :: "'v event list \<Rightarrow> real list" where
  "sleeps evs = concat (map (\<lambda>ev. case ev of Sleep d \<Rightarrow> [d] | _ \<Rightarrow> []) evs)"

text \<open>The specification's "calls spaced more than one second apart", on the clock
  readings of the calls: within a call and from one call to the next the clock does not
  run backwards, and a call starts more than one second after the previous one
  started.\<close>

fun spaced :: "env list \<Rightarrow> bool" where
  "spaced [] = True"
| "spaced [e] = (time_check e \<le> time_reset e)"
| "spaced (e1 # e2 # es) =
     (time_check e1 \<le> time_reset e1 \<and> time_reset e1 \<le> time_check e2
      \<and> time_check e1 + 1 < time_check e2 \<and> spaced (e2 # es))"

subsection \<open>The constructors\<close>

text \<open>Lines 64-69 and 84: the \<^verbatim>\<open>headers\<close> argument. Without it the default dictionary is
  used; a caller's dictionary is updated in place, first case that applies. The result
  is the dictionary later popped from \<^verbatim>\<open>session_args\<close>, and the store.\<close>

definition init_headers :: "config \<Rightarrow> store \<Rightarrow> addr option \<Rightarrow> header_dict \<times> store" where
  "init_headers cfg heap h =
     (case h of
        None \<Rightarrow> (ensembl_user_agent cfg, heap)
      | Some a \<Rightarrow>
          if heap a ''User-Agent'' = None then
            (let heap' = heap(a := heap a ++ ensembl_user_agent cfg) in (heap' a, heap'))
          else if heap a ''Content-Type'' = None then
            (let heap' = heap(a := heap a ++ ensembl_content_type cfg) in (heap' a, heap'))
          else (heap a, heap))"

text \<open>The default dictionary that lines 66-69 add to a caller's dictionary \<open>d\<close>.\<close>

definition added_default :: "config \<Rightarrow> header_dict \<Rightarrow> header_dict" where
  "added_default cfg d =
     (if d ''User-Agent'' = None then ensembl_user_agent cfg
      else if d ''Content-Type'' = None then ensembl_content_type cfg
      else Map.empty)"

text \<open>\<^verbatim>\<open>EnsemblRest.__init__\<close>. \<open>requests_headers\<close> are the headers a new
  \<^verbatim>\<open>requests.Session()\<close> starts with; line 84 updates them with the entries of the
  dictionary popped from \<^verbatim>\<open>session_args\<close>, in the order \<open>items\<close> in which it yields
  them.\<close>

definition EnsemblRest_init ::
  "config \<Rightarrow> (header_dict \<Rightarrow> (string \<times> string) list) \<Rightarrow> ci_dict \<Rightarrow> store \<Rightarrow> 'a init_kwargs \<Rightarrow>
   'a EnsemblRest \<times> store" where
  "EnsemblRest_init cfg items requests_headers heap kwargs =
     (case init_headers cfg heap (kw_headers kwargs) of
        (hdrs, heap') \<Rightarrow>
          (\<lparr> session_args = kw_other kwargs,
             reqs_per_sec = 15,
             req_count = 0,
             last_req = 0,
             session_base_url =
               (case kw_base_url kwargs of None \<Rightarrow> ensembl_default_url cfg | Some b \<Rightarrow> b),
             session_proxies = (case kw_proxies kwargs of None \<Rightarrow> Map.empty | Some p \<Rightarrow> p),
             session_headers = ci_update requests_headers (items hdrs),
             api_funcs = map (\<lambda>(fun_name, func). (fun_name, doc func)) (ensembl_api_table cfg),
             last_response = None \<rparr>,
           heap'))"

text \<open>\<^verbatim>\<open>EnsemblGenomeRest.__init__(self, base_url=ensembl_genomes_url, **kwargs)\<close>:
  \<^verbatim>\<open>kwargs["base_url"] = base_url\<close>, then the constructor of the base class.\<close>

definition EnsemblGenomeRest_init ::
  "config \<Rightarrow> (header_dict \<Rightarrow> (string \<times> string) list) \<Rightarrow> ci_dict \<Rightarrow> store \<Rightarrow> 'a init_kwargs \<Rightarrow>
   'a EnsemblRest \<times> store" where
  "EnsemblGenomeRest_init cfg items requests_headers heap kwargs =
     (let base_url = (case kw_base_url kwargs of None \<Rightarrow> ensembl_genomes_url cfg | Some b \<Rightarrow> b)
      in EnsemblRest_init cfg items requests_headers heap (kwargs\<lparr>kw_base_url := Some base_url\<rparr>))"

subsection \<open>The template as the specification describes it\<close>

text \<open>The specification describes a URL template as text with placeholders
  \<^verbatim>\<open>{{name}}\<close>, and URL resolution as the substitution of every placeholder by the string
  form of its argument. The definitions of this subsection follow those words, for the
  comparison with \<open>re_findall\<close> and \<open>re_sub\<close>: a template is a list of literal pieces and
  placeholder names, \<open>spec_render\<close> writes it as the string of the table, \<open>spec_tokens\<close>
  lists its placeholders and \<open>spec_substitute\<close> replaces each by a value. In a
  well-formed template a literal piece has no opening brace and a name is a non-empty
  run of the characters of \<open>ident_chars\<close>.\<close>

datatype segment = Lit string | Tok string

fun spec_render :: "segment list \<Rightarrow> string" where
  "spec_render [] = []"
| "spec_render (Lit s # segs) = s @ spec_render segs"
| "spec_render (Tok t # segs) = ''{{'' @ t @ ''}}'' @ spec_render segs"

fun spec_substitute :: "(string \<Rightarrow> string) \<Rightarrow> segment list \<Rightarrow> string" where
  "spec_substitute val [] = []"
| "spec_substitute val (Lit s # segs) = s @ spec_substitute val segs"
| "spec_substitute val (Tok t # segs) = val t @ spec_substitute val segs"

fun spec_tokens :: "segment list \<Rightarrow> string list" where
  "spec_tokens [] = []"
| "spec_tokens (Lit s # segs) = spec_tokens segs"
| "spec_tokens (Tok t # segs) = t # spec_tokens segs"

fun well_formed :: "segment list \<Rightarrow> bool" where
  "well_formed [] = True"
| "well_formed (Lit s # segs) = (CHR ''{'' \<notin> set s \<and> well_formed segs)"
| "well_formed (Tok t # segs) = (t \<noteq> [] \<and> list_all is_ident t \<and> well_formed segs)"

subsection \<open>Example data\<close>

text \<open>A configuration with four table entries and three status codes, a decoder that
  decodes three documents as \<^verbatim>\<open>json.loads\<close> does (the other bodies used below, the empty text
  and an HTML page, are not JSON), an environment and a freshly constructed instance.
  The theorems below are instantiated on them. The arguments of the example calls are
  strings, or values of \<open>pyvalue\<close>: a string is formatted as itself (\<open>Inr\<close>), and
  \<^verbatim>\<open>json.dumps\<close> raises nothing for a dictionary of strings (\<open>Map.empty\<close>).\<close>

definition example_config :: config where
  "example_config =
     \<lparr> ensembl_default_url = ''http://rest.ensembl.org'',
       ensembl_genomes_url = ''http://rest.ensemblgenomes.org'',
       ensembl_api_table =
         [(''lookup'',
            \<lparr>http_method = ''GET'', url = ''/lookup/{{id}}'',
             content_type = ''application/json'', doc = Some ''Find an identifier''\<rparr>),
          (''lookup_symbol'',
            \<lparr>http_method = ''GET'', url = ''/lookup/symbol/{{species}}/{{symbol}}'',
             content_type = ''application/json'', doc = None\<rparr>),
          (''sequence'',
            \<lparr>http_method = ''GET'', url = ''/sequence/id/{{id}}'',
             content_type = ''text/plain'', doc = None\<rparr>),
          (''archive'',
            \<lparr>http_method = ''POST'', url = ''/archive/id'',
             content_type = ''application/json'', doc = None\<rparr>)],
       ensembl_http_status_codes =
         [(400, ''Bad Request'', ''Occurs during exceptional circumstances''),
          (404, ''Not Found'', ''Indicates a badly formatted request''),
          (429, ''Too Many Requests'', ''You have been rate-limited'')],
       ensembl_user_agent = [''User-Agent'' \<mapsto> ''pyEnsemblRest''],
       ensembl_content_type = [''Content-Type'' \<mapsto> ''application/json''] \<rparr>"

definition example_loads :: "string \<Rightarrow> json option" where
  \<open>example_loads s =
     (if s = ''{"a":1}'' then Some (JObj [(''a'', JInt 1)])
      else if s = ''{"error":"bad id"}'' then Some (JObj [(''error'', JStr ''bad id'')])
      else if s = ''{}'' then Some (JObj [])
      else None)\<close>

definition example_env :: "real \<Rightarrow> int \<Rightarrow> string \<Rightarrow> env" where
  "example_env t code body =
     \<lparr>time_check = t, time_reset = t, reply = Some \<lparr>status_code = code, body_text = body\<rparr>\<rparr>"

text \<open>The order in which the dictionaries of the examples yield their entries: their keys
  are among the five listed, and each example dictionary yields them in this order, the
  order in which its keys were inserted.\<close>

definition example_items :: "header_dict \<Rightarrow> (string \<times> string) list" where
  "example_items d =
     List.map_filter (\<lambda>k. map_option (Pair k) (d k))
       [''Accept'', ''Cookie'', ''User-Agent'', ''content-type'', ''Content-Type'']"

definition example_init_kwargs :: "unit init_kwargs" where
  "example_init_kwargs =
     \<lparr>kw_base_url = None, kw_headers = None, kw_proxies = None, kw_other = Map.empty\<rparr>"

definition example_self :: "unit EnsemblRest" where
  "example_self =
     fst (EnsemblRest_init example_config example_items Map.empty (\<lambda>a. Map.empty)
            example_init_kwargs)"

text \<open>Two headers dictionaries of a caller: at address 0 one without a user agent, at
  address 1 one with a user agent and with a content type under the lower-case key. The
  constructor arguments pass the first, or the second, together with a base URL.\<close>

definition example_heap :: store where
  "example_heap =
     (\<lambda>a. Map.empty)
       (0 := [''Accept'' \<mapsto> ''text/xml''],
        1 := [''Cookie'' \<mapsto> ''sid=1'', ''User-Agent'' \<mapsto> ''mine'',
              ''content-type'' \<mapsto> ''text/xml''])"

definition example_lower_kwargs :: "unit init_kwargs" where
  "example_lower_kwargs =
     \<lparr>kw_base_url = Some ''http://localhost:3000'', kw_headers = Some 1, kw_proxies = None,
      kw_other = Map.empty\<rparr>"

definition example_headers_kwargs :: "unit init_kwargs" where
  "example_headers_kwargs =
     \<lparr>kw_base_url = Some ''http://localhost:3000'', kw_headers = Some 0, kw_proxies = None,
      kw_other = Map.empty\<rparr>"

text \<open>An instance that has counted 15 requests since its reset at time 1000.\<close>

definition example_busy :: "unit EnsemblRest" where
  "example_busy = example_self\<lparr>req_count := 15, last_req := 1000\<rparr>"

section \<open>Properties\<close>

subsection \<open>The regular expression on a well-formed template\<close>

lemma not_ident_brace: "\<not> is_ident CHR ''}''" "\<not> is_ident CHR ''{''"
  by (simp_all add: is_ident_def ident_chars_def)

lemma match_token_no_brace: "CHR ''{'' \<noteq> c \<Longrightarrow> match_token (c # cs) = None"
  by (auto simp: match_token_def split: list.splits)

lemma match_token_placeholder:
  assumes "t \<noteq> []" "list_all is_ident t"
  shows "match_token (''{{'' @ t @ ''}}'' @ r) = Some (t, r)"
proof -
  from assms(2) have all: "\<forall>c\<in>set t. is_ident c" by (simp add: list_all_iff)
  have tw: "takeWhile is_ident (t @ ''}}'' @ r) = t"
    using all by (simp add: takeWhile_append2 not_ident_brace)
  have dw: "dropWhile is_ident (t @ ''}}'' @ r) = ''}}'' @ r"
    using all by (simp add: dropWhile_append2 not_ident_brace)
  show ?thesis
    using assms(1) tw dw by (simp add: match_token_def Let_def)
qed

lemma re_sub_literal:
  "CHR ''{'' \<notin> set s \<Longrightarrow> re_sub repl r = Inr x \<Longrightarrow> re_sub repl (s @ r) = Inr (s @ x)"
  by (induction s) (simp_all add: match_token_no_brace)

lemma re_findall_literal: "CHR ''{'' \<notin> set s \<Longrightarrow> re_findall (s @ r) = re_findall r"
  by (induction s) (simp_all add: match_token_no_brace)

lemma re_sub_placeholder:
  assumes "t \<noteq> []" "list_all is_ident t" "repl t = Inr y" "re_sub repl r = Inr x"
  shows "re_sub repl (''{{'' @ t @ ''}}'' @ r) = Inr (y @ x)"
  using match_token_placeholder [OF assms(1,2), of r] assms(3,4) by simp

lemma re_findall_placeholder:
  assumes "t \<noteq> []" "list_all is_ident t"
  shows "re_findall (''{{'' @ t @ ''}}'' @ r) = t # re_findall r"
  using match_token_placeholder [OF assms, of r] by simp

lemma re_sub_render:
  "well_formed segs \<Longrightarrow> \<forall>t\<in>set (spec_tokens segs). repl t = Inr (str_of t) \<Longrightarrow>
   re_sub repl (spec_render segs) = Inr (spec_substitute str_of segs)"
proof (induction segs rule: spec_render.induct)
  case 1
  then show ?case by simp
next
  case (2 s segs)
  then show ?case by (simp add: re_sub_literal)
next
  case (3 t segs)
  then have "re_sub repl (spec_render segs) = Inr (spec_substitute str_of segs)"
    and "repl t = Inr (str_of t)" and "t \<noteq> []" and "list_all is_ident t"
    by simp_all
  from re_sub_placeholder [OF this(3,4,2,1)] show ?case by simp
qed

lemma re_findall_render: "well_formed segs \<Longrightarrow> re_findall (spec_render segs) = spec_tokens segs"
proof (induction segs rule: spec_render.induct)
  case 1
  then show ?case by simp
next
  case (2 s segs)
  then show ?case by (simp add: re_findall_literal)
next
  case (3 t segs)
  then show ?case using re_findall_placeholder [of t "spec_render segs"] by simp
qed

lemma del_params_all:
  "distinct ps \<Longrightarrow> \<forall>p\<in>set ps. kwargs p \<noteq> None \<Longrightarrow> del_params ps kwargs = Inr (kwargs |` (- set ps))"
proof (induction ps arbitrary: kwargs)
  case Nil
  then show ?case by simp
next
  case (Cons p ps)
  from Cons.prems obtain v where v: "kwargs p = Some v" by auto
  have rest: "\<forall>q\<in>set ps. (kwargs(p := None)) q \<noteq> None"
    using Cons.prems by auto
  have eq: "(kwargs(p := None)) |` (- set ps) = kwargs |` (- set (p # ps))"
    by (rule ext) (simp add: restrict_map_def)
  from Cons.prems have "distinct ps" by simp
  from Cons.IH [OF this rest]
  have "del_params ps (kwargs(p := None)) = Inr (kwargs |` (- set (p # ps)))"
    unfolding eq .
  with v show ?case by (simp del: fun_upd_apply)
qed

lemma find_None_supplied: "\<forall>p\<in>set ps. kwargs p \<noteq> None \<Longrightarrow> find (\<lambda>param. kwargs param = None) ps = None"
  by (simp add: find_None_iff)

subsection \<open>Evaluating the examples\<close>

lemmas call_defs = call_api_func_def prepare_def throttle_def send_def perform_def classify_def
  error_message_def status_message_def resolve_url_def repl_of_def match_token_def
  is_ident_def ident_chars_def py_repr_def py_str_list_def Let_def

lemmas example_defs = example_config_def example_loads_def example_env_def example_self_def
  example_init_kwargs_def EnsemblRest_init_def init_headers_def example_items_def
  List.map_filter_simps ci_update_def ci_set_def py_lower_def lower_char_def

lemma example_self_eq:
  "example_self =
     \<lparr> session_args = Map.empty, reqs_per_sec = 15, req_count = 0, last_req = 0,
       session_base_url = ''http://rest.ensembl.org'', session_proxies = Map.empty,
       session_headers = [''user-agent'' \<mapsto> (''User-Agent'', ''pyEnsemblRest'')],
       api_funcs = [(''lookup'', Some ''Find an identifier''), (''lookup_symbol'', None),
                    (''sequence'', None), (''archive'', None)],
       last_response = None \<rparr>"
  by (simp add: example_defs)

lemma example_prepare_lookup:
  "prepare example_config Inr example_self ''lookup'' [''id'' \<mapsto> ''ENSG001''] =
     (Inr (\<lparr>http_method = ''GET'', url = ''/lookup/{{id}}'',
             content_type = ''application/json'', doc = Some ''Find an identifier''\<rparr>,
           ''http://rest.ensembl.org/lookup/ENSG001'', Map.empty), [])"
  by (simp add: example_self_eq example_config_def call_defs)

lemma example_prepare_sequence:
  "prepare example_config Inr example_self ''sequence'' [''id'' \<mapsto> ''ENSG001''] =
     (Inr (\<lparr>http_method = ''GET'', url = ''/sequence/id/{{id}}'',
             content_type = ''text/plain'', doc = None\<rparr>,
           ''http://rest.ensembl.org/sequence/id/ENSG001'', Map.empty), [])"
  by (simp add: example_self_eq example_config_def call_defs)

subsection \<open>The request counter\<close>

text \<open>C5. A call that reaches the request (the preparation of lines 107-124 succeeds and
  the method is GET, or POST with arguments that \<^verbatim>\<open>json.dumps\<close> serialises, so that the
  session is called) and gets a response, whatever its status, leaves the request
  count one above its value after the rate-limit step (zero when the limit had been
  reached, the old count otherwise), records the response, and raises or returns what
  the classification of that response gives: the count is incremented before, and
  whatever, the classification.\<close>

theorem request_count_incremented:
  assumes "prepare cfg fmt self api_call kwargs = (Inr (func, u, kwargs'), logged)"
      and "http_method func = ''GET'' \<or> (http_method func = ''POST'' \<and> dumps kwargs' = None)"
      and "reply e = Some resp"
  shows "case call_api_func cfg loads dumps fmt e self api_call kwargs of
           (result, self', evs) \<Rightarrow>
             req_count self' = (if req_count self \<ge> reqs_per_sec self then 0 else req_count self) + 1
             \<and> last_response self' = Some resp
             \<and> result = classify cfg loads func resp"
  using assms
  by (auto simp: call_api_func_def throttle_def send_def perform_def Let_def)

text \<open>The lookup of \<^verbatim>\<open>ENSG001\<close> answered with status 404: the error is raised and the
  count is 1.\<close>

theorem request_count_incremented_witness:
  "(case call_api_func example_config example_loads Map.empty Inr (example_env 1000 404 ''Not Found'')
           example_self ''lookup'' [''id'' \<mapsto> ''ENSG001''] of
      (result, self', evs) \<Rightarrow>
        req_count self' = 1
        \<and> last_response self' = Some \<lparr>status_code = 404, body_text = ''Not Found''\<rparr>
        \<and> result = Inl (EnsemblRestError (JStr ''Indicates a badly formatted request'') 404))"
  using request_count_incremented [where dumps = Map.empty, OF example_prepare_lookup,
      where e = "example_env 1000 404 ''Not Found''"
        and resp = "\<lparr>status_code = 404, body_text = ''Not Found''\<rparr>"
        and loads = example_loads]
  by (simp add: example_env_def example_self_eq classify_def error_message_def status_message_def
        example_config_def split: prod.splits)

subsection \<open>Classification of the response\<close>

text \<open>C6, as the code has it. For a call that reaches the request (the session is
  called, as for C5) and gets a response with status at most 304: when the content type of the entry is
  \<^verbatim>\<open>application/json\<close> the body is given to the JSON decoder, the decoded structure is
  returned when the body decodes and the decoder's \<^verbatim>\<open>ValueError\<close> leaves the call when it
  does not; for any other content type the text of the body is returned unchanged.\<close>

theorem success_classification:
  assumes "prepare cfg fmt self api_call kwargs = (Inr (func, u, kwargs'), logged)"
      and "http_method func = ''GET'' \<or> (http_method func = ''POST'' \<and> dumps kwargs' = None)"
      and "reply e = Some resp"
      and "status_code resp \<le> 304"
  shows "fst (call_api_func cfg loads dumps fmt e self api_call kwargs) =
           (if content_type func = ''application/json'' then
              (case loads (body_text resp) of
                 Some j \<Rightarrow> Inr (Json j)
               | None \<Rightarrow> Inl ValueError)
            else Inr (Text (body_text resp)))"
  using assms
  by (auto simp: call_api_func_def throttle_def send_def perform_def classify_def Let_def
           split: option.splits)

text \<open>Status 200 with the body \<^verbatim>\<open>{"a":1}\<close>: the JSON entry returns the structure, the
  plain-text entry returns the text.\<close>

theorem success_classification_witness:
  \<open>fst (call_api_func example_config example_loads Map.empty Inr (example_env 1000 200 ''{"a":1}'')
          example_self ''lookup'' [''id'' \<mapsto> ''ENSG001'']) = Inr (Json (JObj [(''a'', JInt 1)]))
   \<and> fst (call_api_func example_config example_loads Map.empty Inr (example_env 1000 200 ''{"a":1}'')
          example_self ''sequence'' [''id'' \<mapsto> ''ENSG001'']) = Inr (Text ''{"a":1}'')\<close>
  using success_classification [where dumps = Map.empty, OF example_prepare_lookup,
      where e = \<open>example_env 1000 200 ''{"a":1}''\<close>
        and resp = \<open>\<lparr>status_code = 200, body_text = ''{"a":1}''\<rparr>\<close>
        and loads = example_loads]
    success_classification [where dumps = Map.empty, OF example_prepare_sequence,
      where e = \<open>example_env 1000 200 ''{"a":1}''\<close>
        and resp = \<open>\<lparr>status_code = 200, body_text = ''{"a":1}''\<rparr>\<close>
        and loads = example_loads]
  by (simp add: example_env_def example_loads_def)

text \<open>Status 304 with an empty body on a JSON entry: the call does not return, the
  decoder's error is raised.\<close>

theorem success_classification_counterexample:
  "fst (call_api_func example_config example_loads Map.empty Inr (example_env 1000 304 [])
          example_self ''lookup'' [''id'' \<mapsto> ''ENSG001'']) = Inl ValueError"
  unfolding call_api_func_def example_prepare_lookup
  by (simp add: throttle_def send_def perform_def classify_def example_env_def
        example_loads_def example_self_eq)

subsection \<open>The error message\<close>

lemma call_reaching_classification:
  assumes "prepare cfg fmt self api_call kwargs = (Inr (func, u, kwargs'), logged)"
      and "http_method func = ''GET'' \<or> (http_method func = ''POST'' \<and> dumps kwargs' = None)"
      and "reply e = Some resp"
  shows "fst (call_api_func cfg loads dumps fmt e self api_call kwargs) = classify cfg loads func resp"
  using assms
  by (auto simp: call_api_func_def throttle_def send_def perform_def Let_def)

lemma status_message_cases:
  "status_message cfg code = Inl KeyError \<or> (\<exists>msg. status_message cfg code = Inr (JStr msg))"
  by (simp add: status_message_def split: option.splits prod.splits)

lemma status_message_Some:
  "map_of (ensembl_http_status_codes cfg) code = Some (short, msg) \<Longrightarrow>
   status_message cfg code = Inr (JStr msg)"
  by (simp add: status_message_def)

lemma status_message_Inr:
  "status_message cfg code = Inr m \<Longrightarrow>
   \<exists>short msg. map_of (ensembl_http_status_codes cfg) code = Some (short, msg) \<and> m = JStr msg"
  by (auto simp: status_message_def split: option.splits prod.splits)

lemma error_message_other:
  "status_code resp \<noteq> 400 \<Longrightarrow>
   error_message cfg loads resp = status_message cfg (status_code resp)"
  by (simp add: error_message_def)

lemma error_message_undecodable:
  "status_code resp = 400 \<Longrightarrow> loads (body_text resp) = None \<Longrightarrow>
   error_message cfg loads resp = Inl ValueError"
  by (simp add: error_message_def)

lemma error_message_object:
  "status_code resp = 400 \<Longrightarrow> loads (body_text resp) = Some (JObj kvs) \<Longrightarrow>
   error_message cfg loads resp =
     (case map_of kvs ''error'' of Some message \<Rightarrow> Inr message | None \<Rightarrow> status_message cfg 400)"
  by (simp add: error_message_def split: option.splits)

lemma error_message_not_object:
  "status_code resp = 400 \<Longrightarrow> loads (body_text resp) = Some j \<Longrightarrow> \<forall>kvs. j \<noteq> JObj kvs \<Longrightarrow>
   error_message cfg loads resp = Inl TypeError"
  by (cases j) (simp_all add: error_message_def)

lemma error_message_Inl:
  "error_message cfg loads resp = Inl ex \<Longrightarrow> ex = KeyError \<or> ex = ValueError \<or> ex = TypeError"
proof (cases "status_code resp = 400")
  case False
  assume "error_message cfg loads resp = Inl ex"
  with False status_message_cases [of cfg "status_code resp"] show ?thesis
    by (auto simp: error_message_other)
next
  case True
  assume a: "error_message cfg loads resp = Inl ex"
  show ?thesis
  proof (cases "loads (body_text resp)")
    case None
    with True a show ?thesis by (simp add: error_message_undecodable)
  next
    case (Some j)
    show ?thesis
    proof (cases "\<exists>kvs. j = JObj kvs")
      case False
      with True Some a show ?thesis by (simp add: error_message_not_object)
    next
      case True
      then obtain kvs where "j = JObj kvs" ..
      with \<open>status_code resp = 400\<close> Some a status_message_cases [of cfg 400] show ?thesis
        by (auto simp: error_message_object split: option.splits)
    qed
  qed
qed

lemma error_message_Inr_400:
  assumes "status_code resp = 400" "error_message cfg loads resp = Inr message"
  shows "\<exists>kvs. loads (body_text resp) = Some (JObj kvs) \<and>
           (case map_of kvs ''error'' of
              Some m \<Rightarrow> message = m
            | None \<Rightarrow> (\<exists>short msg. map_of (ensembl_http_status_codes cfg) 400 = Some (short, msg)
                         \<and> message = JStr msg))"
proof (cases "loads (body_text resp)")
  case None
  with assms show ?thesis by (simp add: error_message_undecodable)
next
  case (Some j)
  show ?thesis
  proof (cases "\<exists>kvs. j = JObj kvs")
    case False
    with assms Some show ?thesis by (simp add: error_message_not_object)
  next
    case True
    then obtain kvs where j: "j = JObj kvs" ..
    show ?thesis
    proof (cases "map_of kvs ''error''")
      case None
      with assms Some j have "status_message cfg 400 = Inr message"
        by (simp add: error_message_object)
      from status_message_Inr [OF this] Some j None show ?thesis by simp
    next
      case (Some m)
      with assms \<open>loads (body_text resp) = Some j\<close> j show ?thesis
        by (simp add: error_message_object)
    qed
  qed
qed

lemma classify_error:
  "status_code resp > 304 \<Longrightarrow>
   classify cfg loads func resp =
     (case error_message cfg loads resp of
        Inl ex \<Rightarrow> Inl ex
      | Inr message \<Rightarrow>
          if status_code resp = 429
          then Inl (EnsemblRestRateLimitError message (status_code resp))
          else Inl (EnsemblRestError message (status_code resp)))"
  by (simp add: classify_def)

lemma classify_rate_limit_only:
  assumes "status_code resp > 304"
      and "classify cfg loads func resp = Inl (EnsemblRestRateLimitError message code)"
  shows "code = 429 \<and> status_code resp = 429"
proof (cases "error_message cfg loads resp")
  case (Inl ex)
  with assms error_message_Inl [OF Inl] show ?thesis by (auto simp: classify_error)
next
  case (Inr m)
  with assms show ?thesis by (auto simp: classify_error split: if_splits)
qed

lemma classify_generic_only:
  assumes "status_code resp > 304"
      and "classify cfg loads func resp = Inl (EnsemblRestError message code)"
  shows "code = status_code resp \<and> status_code resp \<noteq> 429
         \<and> error_message cfg loads resp = Inr message"
proof (cases "error_message cfg loads resp")
  case (Inl ex)
  with assms error_message_Inl [OF Inl] show ?thesis by (auto simp: classify_error)
next
  case (Inr m)
  with assms show ?thesis by (auto simp: classify_error split: if_splits)
qed

lemma example_lookup_method:
  "http_method \<lparr>http_method = ''GET'', url = ''/lookup/{{id}}'',
             content_type = ''application/json'', doc = Some ''Find an identifier''\<rparr> = ''GET''
   \<or> (http_method \<lparr>http_method = ''GET'', url = ''/lookup/{{id}}'',
             content_type = ''application/json'', doc = Some ''Find an identifier''\<rparr> = ''POST''
       \<and> (Map.empty :: string kwargs \<rightharpoonup> pyexn) kwargs = None)"
  by simp

lemma example_reply: "reply (example_env t code body) = Some \<lparr>status_code = code, body_text = body\<rparr>"
  by (simp add: example_env_def)

lemma example_status_codes:
  "map_of (ensembl_http_status_codes example_config) 400 =
     Some (''Bad Request'', ''Occurs during exceptional circumstances'')"
  "map_of (ensembl_http_status_codes example_config) 404 =
     Some (''Not Found'', ''Indicates a badly formatted request'')"
  "map_of (ensembl_http_status_codes example_config) 429 =
     Some (''Too Many Requests'', ''You have been rate-limited'')"
  by (simp_all add: example_config_def)

text \<open>C7, as the code has it. For a call that reaches the request (the session is
  called, as for C5) and gets a response with status above 304: for a status other than 400 that has an entry in the status-code
  table, the error raised carries the message of that entry and the status code; for
  status 400 with a body that decodes to a JSON object, the message is the \<^verbatim>\<open>error\<close> field
  of the object or, when the object has no such field and 400 has an entry in the table,
  the message of that entry. Status 429 raises the rate-limit error, every other status
  the generic error, and no typed error is raised with another code or class.\<close>

theorem error_classification:
  assumes "prepare cfg fmt self api_call kwargs = (Inr (func, u, kwargs'), logged)"
      and "http_method func = ''GET'' \<or> (http_method func = ''POST'' \<and> dumps kwargs' = None)"
      and "reply e = Some resp"
      and "status_code resp > 304"
  shows "(status_code resp \<noteq> 400 \<longrightarrow>
            (\<forall>short msg. map_of (ensembl_http_status_codes cfg) (status_code resp) = Some (short, msg) \<longrightarrow>
               fst (call_api_func cfg loads dumps fmt e self api_call kwargs) =
                 (if status_code resp = 429
                  then Inl (EnsemblRestRateLimitError (JStr msg) 429)
                  else Inl (EnsemblRestError (JStr msg) (status_code resp)))))
       \<and> (status_code resp = 400 \<longrightarrow>
            (\<forall>kvs. loads (body_text resp) = Some (JObj kvs) \<longrightarrow>
               (case map_of kvs ''error'' of
                  Some message \<Rightarrow>
                    fst (call_api_func cfg loads dumps fmt e self api_call kwargs) =
                      Inl (EnsemblRestError message 400)
                | None \<Rightarrow>
                    (\<forall>short msg. map_of (ensembl_http_status_codes cfg) 400 = Some (short, msg) \<longrightarrow>
                       fst (call_api_func cfg loads dumps fmt e self api_call kwargs) =
                         Inl (EnsemblRestError (JStr msg) 400)))))
       \<and> (\<forall>message code. fst (call_api_func cfg loads dumps fmt e self api_call kwargs) =
              Inl (EnsemblRestRateLimitError message code) \<longrightarrow>
            code = 429 \<and> status_code resp = 429)
       \<and> (\<forall>message code. fst (call_api_func cfg loads dumps fmt e self api_call kwargs) =
              Inl (EnsemblRestError message code) \<longrightarrow>
            code = status_code resp \<and> status_code resp \<noteq> 429)"
proof -
  let ?r = "fst (call_api_func cfg loads dumps fmt e self api_call kwargs)"
  have r: "?r = classify cfg loads func resp"
    by (rule call_reaching_classification [where dumps = dumps, OF assms(1-3)])
  have other: "?r = (if status_code resp = 429
                  then Inl (EnsemblRestRateLimitError (JStr msg) 429)
                  else Inl (EnsemblRestError (JStr msg) (status_code resp)))"
    if "status_code resp \<noteq> 400"
      and "map_of (ensembl_http_status_codes cfg) (status_code resp) = Some (short, msg)"
    for short msg
    using that assms(4)
    by (simp add: r classify_error error_message_other status_message_Some)
  have field: "?r = Inl (EnsemblRestError message 400)"
    if "status_code resp = 400" "loads (body_text resp) = Some (JObj kvs)"
      "map_of kvs ''error'' = Some message" for kvs message
    using that assms(4) by (simp add: r classify_error error_message_object)
  have fallback: "?r = Inl (EnsemblRestError (JStr msg) 400)"
    if "status_code resp = 400" "loads (body_text resp) = Some (JObj kvs)"
      "map_of kvs ''error'' = None" "map_of (ensembl_http_status_codes cfg) 400 = Some (short, msg)"
    for kvs short msg
    using that assms(4) by (simp add: r classify_error error_message_object status_message_Some)
  have c400: "case map_of kvs ''error'' of
                  Some message \<Rightarrow> ?r = Inl (EnsemblRestError message 400)
                | None \<Rightarrow>
                    (\<forall>short msg. map_of (ensembl_http_status_codes cfg) 400 = Some (short, msg) \<longrightarrow>
                       ?r = Inl (EnsemblRestError (JStr msg) 400))"
    if "status_code resp = 400" "loads (body_text resp) = Some (JObj kvs)" for kvs
  proof (cases "map_of kvs ''error''")
    case None
    with fallback [OF that] show ?thesis by simp
  next
    case (Some message)
    with field [OF that] show ?thesis by simp
  qed
  have rate: "code = 429 \<and> status_code resp = 429"
    if "?r = Inl (EnsemblRestRateLimitError message code)" for message code
    using classify_rate_limit_only [OF assms(4), of cfg loads func message code] that r by simp
  have generic: "code = status_code resp \<and> status_code resp \<noteq> 429"
    if "?r = Inl (EnsemblRestError message code)" for message code
    using classify_generic_only [OF assms(4), of cfg loads func message code] that r by simp
  from other c400 rate generic show ?thesis by blast
qed

text \<open>Statuses 429 and 404, and status 400 with and without the \<^verbatim>\<open>error\<close> field.\<close>

theorem error_classification_witness:
  \<open>fst (call_api_func example_config example_loads Map.empty Inr (example_env 1000 429 [])
          example_self ''lookup'' [''id'' \<mapsto> ''ENSG001'']) =
      Inl (EnsemblRestRateLimitError (JStr ''You have been rate-limited'') 429)
   \<and> fst (call_api_func example_config example_loads Map.empty Inr (example_env 1000 404 [])
          example_self ''lookup'' [''id'' \<mapsto> ''ENSG001'']) =
      Inl (EnsemblRestError (JStr ''Indicates a badly formatted request'') 404)
   \<and> fst (call_api_func example_config example_loads Map.empty Inr (example_env 1000 400 ''{"error":"bad id"}'')
          example_self ''lookup'' [''id'' \<mapsto> ''ENSG001'']) =
      Inl (EnsemblRestError (JStr ''bad id'') 400)
   \<and> fst (call_api_func example_config example_loads Map.empty Inr (example_env 1000 400 ''{}'')
          example_self ''lookup'' [''id'' \<mapsto> ''ENSG001'']) =
      Inl (EnsemblRestError (JStr ''Occurs during exceptional circumstances'') 400)\<close>
proof -
  note inst = error_classification [where loads = example_loads and dumps = Map.empty,
      OF example_prepare_lookup example_lookup_method example_reply]
  have a: \<open>fst (call_api_func example_config example_loads Map.empty Inr (example_env 1000 429 [])
          example_self ''lookup'' [''id'' \<mapsto> ''ENSG001'']) =
      Inl (EnsemblRestRateLimitError (JStr ''You have been rate-limited'') 429)\<close>
    using inst [of 429 "[]" 1000, THEN conjunct1, rule_format, of "''Too Many Requests''"
        "''You have been rate-limited''"]
    by (simp add: example_status_codes)
  have b: \<open>fst (call_api_func example_config example_loads Map.empty Inr (example_env 1000 404 [])
          example_self ''lookup'' [''id'' \<mapsto> ''ENSG001'']) =
      Inl (EnsemblRestError (JStr ''Indicates a badly formatted request'') 404)\<close>
    using inst [of 404 "[]" 1000, THEN conjunct1, rule_format, of "''Not Found''"
        "''Indicates a badly formatted request''"]
    by (simp add: example_status_codes)
  have c: \<open>fst (call_api_func example_config example_loads Map.empty Inr (example_env 1000 400 ''{"error":"bad id"}'')
          example_self ''lookup'' [''id'' \<mapsto> ''ENSG001'']) =
      Inl (EnsemblRestError (JStr ''bad id'') 400)\<close>
    using inst [of 400 \<open>''{"error":"bad id"}''\<close> 1000, THEN conjunct2, THEN conjunct1, rule_format,
        of \<open>[(''error'', JStr ''bad id'')]\<close>]
    by (simp add: example_loads_def)
  have d: \<open>fst (call_api_func example_config example_loads Map.empty Inr (example_env 1000 400 ''{}'')
          example_self ''lookup'' [''id'' \<mapsto> ''ENSG001'']) =
      Inl (EnsemblRestError (JStr ''Occurs during exceptional circumstances'') 400)\<close>
    using inst [of 400 \<open>''{}''\<close> 1000, THEN conjunct2, THEN conjunct1, rule_format, of \<open>[]\<close>]
    by (simp add: example_loads_def example_status_codes)
  from a b c d show ?thesis by (intro conjI)
qed

text \<open>Status 400 with an HTML body: no typed error is raised, the decoder's
  \<^verbatim>\<open>ValueError\<close> leaves the call.\<close>

theorem error_classification_counterexample:
  "fst (call_api_func example_config example_loads Map.empty Inr
          (example_env 1000 400 ''<html>Bad Request</html>'')
          example_self ''lookup'' [''id'' \<mapsto> ''ENSG001'']) = Inl ValueError"
  unfolding call_api_func_def example_prepare_lookup
  by (simp add: throttle_def send_def perform_def classify_def error_message_def example_env_def
        example_loads_def example_self_eq)

text \<open>C9. For a call that reaches the request (the session is called, as for C5) and
  gets a response with status 400: when
  the body does not decode as JSON the call raises \<^verbatim>\<open>ValueError\<close>, not a typed error;
  a typed error is raised only when the body decodes to an object, with the \<^verbatim>\<open>error\<close>
  field as its message when the field is present and the table message otherwise; and
  an object without the field does fall back to the table message.\<close>

theorem undecodable_bad_request:
  assumes "prepare cfg fmt self api_call kwargs = (Inr (func, u, kwargs'), logged)"
      and "http_method func = ''GET'' \<or> (http_method func = ''POST'' \<and> dumps kwargs' = None)"
      and "reply e = Some resp"
      and "status_code resp = 400"
  shows "(loads (body_text resp) = None \<longrightarrow>
            fst (call_api_func cfg loads dumps fmt e self api_call kwargs) = Inl ValueError)
       \<and> (\<forall>message code.
            fst (call_api_func cfg loads dumps fmt e self api_call kwargs) =
              Inl (EnsemblRestError message code) \<longrightarrow>
            (\<exists>kvs. loads (body_text resp) = Some (JObj kvs) \<and>
               (case map_of kvs ''error'' of
                  Some m \<Rightarrow> message = m
                | None \<Rightarrow>
                    (\<exists>short msg. map_of (ensembl_http_status_codes cfg) 400 = Some (short, msg)
                       \<and> message = JStr msg))))
       \<and> (\<forall>kvs short msg.
            loads (body_text resp) = Some (JObj kvs) \<and> map_of kvs ''error'' = None \<and>
            map_of (ensembl_http_status_codes cfg) 400 = Some (short, msg) \<longrightarrow>
            fst (call_api_func cfg loads dumps fmt e self api_call kwargs) =
              Inl (EnsemblRestError (JStr msg) 400))"
proof -
  let ?r = "fst (call_api_func cfg loads dumps fmt e self api_call kwargs)"
  have r: "?r = classify cfg loads func resp"
    by (rule call_reaching_classification [where dumps = dumps, OF assms(1-3)])
  from assms(4) have gt: "status_code resp > 304" by simp
  have undecodable: "?r = Inl ValueError" if "loads (body_text resp) = None"
    using that assms(4) by (simp add: r classify_error error_message_undecodable)
  have only: "\<exists>kvs. loads (body_text resp) = Some (JObj kvs) \<and>
               (case map_of kvs ''error'' of
                  Some m \<Rightarrow> message = m
                | None \<Rightarrow>
                    (\<exists>short msg. map_of (ensembl_http_status_codes cfg) 400 = Some (short, msg)
                       \<and> message = JStr msg))"
    if "?r = Inl (EnsemblRestError message code)" for message code
  proof -
    from that r have "classify cfg loads func resp = Inl (EnsemblRestError message code)" by simp
    from classify_generic_only [OF gt this]
    have "error_message cfg loads resp = Inr message" by simp
    from error_message_Inr_400 [OF assms(4) this] show ?thesis .
  qed
  have fallback: "?r = Inl (EnsemblRestError (JStr msg) 400)"
    if "loads (body_text resp) = Some (JObj kvs)"
      "map_of kvs ''error'' = None" "map_of (ensembl_http_status_codes cfg) 400 = Some (short, msg)"
    for kvs short msg
    using that assms(4) by (simp add: r classify_error error_message_object status_message_Some)
  from undecodable only fallback show ?thesis by blast
qed

text \<open>Status 400 with an HTML body, and with the empty object.\<close>

theorem undecodable_bad_request_witness:
  \<open>example_loads ''<html>Bad Request</html>'' = None
   \<and> fst (call_api_func example_config example_loads Map.empty Inr
          (example_env 1000 400 ''<html>Bad Request</html>'')
          example_self ''lookup'' [''id'' \<mapsto> ''ENSG001'']) = Inl ValueError
   \<and> fst (call_api_func example_config example_loads Map.empty Inr (example_env 1000 400 ''{}'')
          example_self ''lookup'' [''id'' \<mapsto> ''ENSG001'']) =
      Inl (EnsemblRestError (JStr ''Occurs during exceptional circumstances'') 400)\<close>
proof -
  note inst = undecodable_bad_request [where loads = example_loads and dumps = Map.empty,
      OF example_prepare_lookup example_lookup_method example_reply]
  have a: \<open>example_loads ''<html>Bad Request</html>'' = None\<close>
    by (simp add: example_loads_def)
  have b: \<open>fst (call_api_func example_config example_loads Map.empty Inr
          (example_env 1000 400 ''<html>Bad Request</html>'')
          example_self ''lookup'' [''id'' \<mapsto> ''ENSG001'']) = Inl ValueError\<close>
    using inst [of 400 \<open>''<html>Bad Request</html>''\<close> 1000, THEN conjunct1, rule_format] a
    by simp
  have c: \<open>fst (call_api_func example_config example_loads Map.empty Inr (example_env 1000 400 ''{}'')
          example_self ''lookup'' [''id'' \<mapsto> ''ENSG001'']) =
      Inl (EnsemblRestError (JStr ''Occurs during exceptional circumstances'') 400)\<close>
    using inst [of 400 \<open>''{}''\<close> 1000, THEN conjunct2, THEN conjunct2, rule_format,
        of \<open>[]\<close> "''Bad Request''" "''Occurs during exceptional circumstances''"]
    by (simp add: example_loads_def example_status_codes)
  from a b c show ?thesis by (intro conjI)
qed

subsection \<open>The constructors\<close>

text \<open>C8. \<^verbatim>\<open>EnsemblGenomeRest\<close> has no method of its own but the constructor. Constructed
  with a base URL it is the instance (and leaves the store) that \<^verbatim>\<open>EnsemblRest\<close>
  constructs from the same arguments; constructed without one it is that instance with
  the genomes URL as the base URL of the session. Every sequence of calls on it is the
  sequence of calls on the \<^verbatim>\<open>EnsemblRest\<close> instance constructed with that base URL.\<close>

theorem genome_client_construction:
  "EnsemblGenomeRest_init cfg items rh heap kwargs =
     (case kw_base_url kwargs of
        Some b \<Rightarrow> EnsemblRest_init cfg items rh heap kwargs
      | None \<Rightarrow>
          (case EnsemblRest_init cfg items rh heap kwargs of
             (self, heap') \<Rightarrow> (self\<lparr>session_base_url := ensembl_genomes_url cfg\<rparr>, heap')))
   \<and> run_calls cfg loads dumps fmt (fst (EnsemblGenomeRest_init cfg items rh heap kwargs)) calls =
       run_calls cfg loads dumps fmt
         (fst (EnsemblRest_init cfg items rh heap
            (kwargs\<lparr>kw_base_url :=
               Some (case kw_base_url kwargs of None \<Rightarrow> ensembl_genomes_url cfg | Some b \<Rightarrow> b)\<rparr>)))
         calls"
proof
  show "EnsemblGenomeRest_init cfg items rh heap kwargs =
     (case kw_base_url kwargs of
        Some b \<Rightarrow> EnsemblRest_init cfg items rh heap kwargs
      | None \<Rightarrow>
          (case EnsemblRest_init cfg items rh heap kwargs of
             (self, heap') \<Rightarrow> (self\<lparr>session_base_url := ensembl_genomes_url cfg\<rparr>, heap')))"
    by (cases kwargs)
       (simp add: EnsemblGenomeRest_init_def EnsemblRest_init_def Let_def
             split: option.splits prod.splits)
next
  show "run_calls cfg loads dumps fmt (fst (EnsemblGenomeRest_init cfg items rh heap kwargs)) calls =
       run_calls cfg loads dumps fmt
         (fst (EnsemblRest_init cfg items rh heap
            (kwargs\<lparr>kw_base_url :=
               Some (case kw_base_url kwargs of None \<Rightarrow> ensembl_genomes_url cfg | Some b \<Rightarrow> b)\<rparr>)))
         calls"
    by (simp add: EnsemblGenomeRest_init_def Let_def)
qed

text \<open>Without a base URL the two classes differ in the base URL only; with one they
  construct the same instance.\<close>

theorem genome_client_construction_witness:
  "session_base_url (fst (EnsemblGenomeRest_init example_config example_items Map.empty
       (\<lambda>a. Map.empty) example_init_kwargs)) = ''http://rest.ensemblgenomes.org''
   \<and> session_base_url (fst (EnsemblRest_init example_config example_items Map.empty
       (\<lambda>a. Map.empty) example_init_kwargs)) = ''http://rest.ensembl.org''
   \<and> EnsemblGenomeRest_init example_config example_items Map.empty example_heap
       example_headers_kwargs =
     EnsemblRest_init example_config example_items Map.empty example_heap example_headers_kwargs"
proof -
  have a: "EnsemblGenomeRest_init example_config example_items Map.empty (\<lambda>a. Map.empty)
       example_init_kwargs =
     (case EnsemblRest_init example_config example_items Map.empty (\<lambda>a. Map.empty)
        example_init_kwargs of
        (self, heap') \<Rightarrow> (self\<lparr>session_base_url := ''http://rest.ensemblgenomes.org''\<rparr>, heap'))"
    using genome_client_construction [of example_config example_items Map.empty
        "\<lambda>a. Map.empty" example_init_kwargs, THEN conjunct1]
    by (simp add: example_init_kwargs_def example_config_def)
  have b: "EnsemblGenomeRest_init example_config example_items Map.empty example_heap
       example_headers_kwargs =
     EnsemblRest_init example_config example_items Map.empty example_heap example_headers_kwargs"
    using genome_client_construction [of example_config example_items Map.empty example_heap
        example_headers_kwargs, THEN conjunct1]
    by (simp add: example_headers_kwargs_def)
  have c: "session_base_url (fst (EnsemblRest_init example_config example_items Map.empty
       (\<lambda>a. Map.empty) example_init_kwargs)) = ''http://rest.ensembl.org''"
    using example_self_eq by (simp add: example_self_def)
  from a have "session_base_url (fst (EnsemblGenomeRest_init example_config example_items
       Map.empty (\<lambda>a. Map.empty) example_init_kwargs)) = ''http://rest.ensemblgenomes.org''"
    by (simp split: prod.splits)
  with b c show ?thesis by (intro conjI)
qed

lemma init_headers_caller:
  "init_headers cfg heap (Some a) =
     (let added = (if heap a ''User-Agent'' = None then ensembl_user_agent cfg
                   else if heap a ''Content-Type'' = None then ensembl_content_type cfg
                   else Map.empty)
      in (heap a ++ added, heap(a := heap a ++ added)))"
  by (simp add: init_headers_def Let_def)

lemma EnsemblRest_init_headers:
  "session_headers (fst (EnsemblRest_init cfg items rh heap kwargs)) =
     ci_update rh (items (fst (init_headers cfg heap (kw_headers kwargs))))"
  "snd (EnsemblRest_init cfg items rh heap kwargs) = snd (init_headers cfg heap (kw_headers kwargs))"
  by (simp_all add: EnsemblRest_init_def split: prod.splits)

lemma ci_update_snoc: "ci_update d (entries @ [(k, v)]) = ci_set (ci_update d entries) k v"
  by (simp add: ci_update_def)

lemma ci_update_last:
  "(k, v) \<in> set entries \<Longrightarrow>
   \<forall>(k', v')\<in>set entries. py_lower k' = py_lower k \<longrightarrow> k' = k \<and> v' = v \<Longrightarrow>
   ci_update d entries (py_lower k) = Some (k, v)"
proof (induction entries rule: rev_induct)
  case Nil
  then show ?case by simp
next
  case (snoc x entries)
  obtain k' v' where x: "x = (k', v')" by (cases x) auto
  show ?case
  proof (cases "py_lower k' = py_lower k")
    case True
    with snoc.prems(2) x have "k' = k \<and> v' = v" by auto
    with x show ?thesis by (simp add: ci_update_snoc ci_set_def)
  next
    case False
    with snoc.prems(1) x have "(k, v) \<in> set entries" by auto
    moreover from snoc.prems(2)
    have "\<forall>(k', v')\<in>set entries. py_lower k' = py_lower k \<longrightarrow> k' = k \<and> v' = v" by auto
    ultimately have "ci_update d entries (py_lower k) = Some (k, v)" by (rule snoc.IH)
    with False x show ?thesis by (simp add: ci_update_snoc ci_set_def)
  qed
qed

lemma ci_update_graph:
  assumes "set entries = Map.graph m" and "m k = Some v"
      and "\<forall>k'\<in>dom m. py_lower k' = py_lower k \<longrightarrow> k' = k"
  shows "ci_update d entries (py_lower k) = Some (k, v)"
proof (rule ci_update_last)
  from assms(1,2) show "(k, v) \<in> set entries" by (simp add: Map.graph_def)
next
  show "\<forall>(k', v')\<in>set entries. py_lower k' = py_lower k \<longrightarrow> k' = k \<and> v' = v"
  proof (clarify)
    fix k' v' assume e: "(k', v') \<in> set entries" and l: "py_lower k' = py_lower k"
    from e assms(1) have m: "m k' = Some v'" by (simp add: Map.graph_def)
    then have "k' \<in> dom m" by auto
    with assms(3) l have "k' = k" by auto
    with m assms(2) show "k' = k \<and> v' = v" by simp
  qed
qed

text \<open>C2, as the code has it. Let a caller pass a headers dictionary, and let the
  dictionary after lines 66-69 (the caller's entries, updated with the default dictionary
  that the constructor adds) yield its entries in any order. A key of the caller that is
  not a key of the added default, and whose lower-case form is the lower-case form of no
  other key of that dictionary, is in the headers of the session with the caller's
  value. A key of the added default whose lower-case form is that of no other key is
  there with the default value.\<close>

theorem caller_headers_win:
  assumes "kw_headers kwargs = Some a"
      and "set (items (heap a ++ added_default cfg (heap a))) =
             Map.graph (heap a ++ added_default cfg (heap a))"
  shows "(\<forall>k v. heap a k = Some v \<and> k \<notin> dom (added_default cfg (heap a)) \<and>
            (\<forall>k'\<in>dom (heap a ++ added_default cfg (heap a)). py_lower k' = py_lower k \<longrightarrow> k' = k) \<longrightarrow>
            session_headers (fst (EnsemblRest_init cfg items rh heap kwargs)) (py_lower k) = Some (k, v)
            \<and> ci_get (session_headers (fst (EnsemblRest_init cfg items rh heap kwargs))) k = Some v)
       \<and> (\<forall>k v. added_default cfg (heap a) k = Some v \<and>
            (\<forall>k'\<in>dom (heap a ++ added_default cfg (heap a)). py_lower k' = py_lower k \<longrightarrow> k' = k) \<longrightarrow>
            ci_get (session_headers (fst (EnsemblRest_init cfg items rh heap kwargs))) k = Some v)"
proof -
  let ?m = "heap a ++ added_default cfg (heap a)"
  have s: "session_headers (fst (EnsemblRest_init cfg items rh heap kwargs)) =
      ci_update rh (items ?m)"
    using assms(1)
    by (simp add: EnsemblRest_init_headers init_headers_caller added_default_def Let_def)
  have get: "session_headers (fst (EnsemblRest_init cfg items rh heap kwargs)) (py_lower k) =
      Some (k, v)"
    if "?m k = Some v" "\<forall>k'\<in>dom ?m. py_lower k' = py_lower k \<longrightarrow> k' = k" for k v
    unfolding s using assms(2) that by (rule ci_update_graph)
  have caller: "?m k = Some v" if "heap a k = Some v" "k \<notin> dom (added_default cfg (heap a))" for k v
    using that by (auto simp: map_add_def split: option.splits)
  have dflt: "?m k = Some v" if "added_default cfg (heap a) k = Some v" for k v
    using that by (simp add: map_add_def)
  from get caller dflt show ?thesis
    by (simp add: ci_get_def)
qed

text \<open>The caller's \<^verbatim>\<open>Accept\<close> header replaces the one of the new session, and the
  default user agent is added.\<close>

theorem caller_headers_win_witness:
  "ci_get (session_headers (fst (EnsemblRest_init example_config example_items
       [''accept'' \<mapsto> (''Accept'', ''*/*'')] example_heap example_headers_kwargs))) ''Accept'' =
     Some ''text/xml''
   \<and> ci_get (session_headers (fst (EnsemblRest_init example_config example_items
       [''accept'' \<mapsto> (''Accept'', ''*/*'')] example_heap example_headers_kwargs))) ''User-Agent'' =
     Some ''pyEnsemblRest''"
proof -
  let ?m = "[''Accept'' \<mapsto> ''text/xml'', ''User-Agent'' \<mapsto> ''pyEnsemblRest'']"
  have 1: "kw_headers example_headers_kwargs = Some 0"
    by (simp add: example_headers_kwargs_def)
  have added: "added_default example_config (example_heap 0) = [''User-Agent'' \<mapsto> ''pyEnsemblRest'']"
    by (simp add: added_default_def example_heap_def example_config_def)
  have m: "example_heap 0 ++ added_default example_config (example_heap 0) = ?m"
    unfolding added by (rule ext) (simp add: example_heap_def map_add_def)
  have 2: "set (example_items (example_heap 0 ++ added_default example_config (example_heap 0))) =
      Map.graph (example_heap 0 ++ added_default example_config (example_heap 0))"
    unfolding m
    by (auto simp: example_items_def List.map_filter_simps Map.graph_def split: if_splits)
  have dom: "dom ?m = {''Accept'', ''User-Agent''}" by auto
  note inst = caller_headers_win [where heap = example_heap and cfg = example_config
      and items = example_items and rh = "[''accept'' \<mapsto> (''Accept'', ''*/*'')]", OF 1 2]
  have a: "ci_get (session_headers (fst (EnsemblRest_init example_config example_items
       [''accept'' \<mapsto> (''Accept'', ''*/*'')] example_heap example_headers_kwargs))) ''Accept'' =
     Some ''text/xml''"
    using inst [THEN conjunct1, rule_format, of "''Accept''" "''text/xml''", THEN conjunct2]
    unfolding m dom added
    by (simp add: example_heap_def py_lower_def lower_char_def)
  have b: "ci_get (session_headers (fst (EnsemblRest_init example_config example_items
       [''accept'' \<mapsto> (''Accept'', ''*/*'')] example_heap example_headers_kwargs))) ''User-Agent'' =
     Some ''pyEnsemblRest''"
    using inst [THEN conjunct2, rule_format, of "''User-Agent''" "''pyEnsemblRest''"]
    unfolding m dom added
    by (simp add: example_heap_def py_lower_def lower_char_def)
  from a b show ?thesis by (intro conjI)
qed

text \<open>A caller's dictionary with the key \<^verbatim>\<open>content-type\<close>: the constructor adds the
  default \<^verbatim>\<open>Content-Type\<close>, and the session answers the caller's key with the default
  value.\<close>

theorem caller_headers_win_counterexample:
  "example_heap 1 ''content-type'' = Some ''text/xml''
   \<and> ci_get (session_headers (fst (EnsemblRest_init example_config example_items Map.empty
        example_heap example_lower_kwargs))) ''content-type'' = Some ''application/json''"
  by (simp add: example_heap_def example_lower_kwargs_def example_defs ci_get_def)

text \<open>C10. When the caller passes a headers dictionary, the store after the construction
  differs from the store before at the address of that dictionary only, where the default
  entries have been added by \<^verbatim>\<open>update\<close>; the session headers are taken from this updated
  dictionary. When the dictionary has no \<^verbatim>\<open>User-Agent\<close> and the default has one, or has
  a \<^verbatim>\<open>User-Agent\<close> but no \<^verbatim>\<open>Content-Type\<close> and the default has one, the caller's
  dictionary after the construction is not the one before.\<close>

theorem caller_headers_mutated:
  assumes "kw_headers kwargs = Some a"
  shows "snd (EnsemblRest_init cfg items rh heap kwargs) =
           heap(a := heap a ++ (if heap a ''User-Agent'' = None then ensembl_user_agent cfg
                                else if heap a ''Content-Type'' = None then ensembl_content_type cfg
                                else Map.empty))
         \<and> session_headers (fst (EnsemblRest_init cfg items rh heap kwargs)) =
             ci_update rh (items (snd (EnsemblRest_init cfg items rh heap kwargs) a))
         \<and> (heap a ''User-Agent'' = None \<and> ensembl_user_agent cfg ''User-Agent'' \<noteq> None \<longrightarrow>
              snd (EnsemblRest_init cfg items rh heap kwargs) a \<noteq> heap a)
         \<and> (heap a ''User-Agent'' \<noteq> None \<and> heap a ''Content-Type'' = None \<and>
              ensembl_content_type cfg ''Content-Type'' \<noteq> None \<longrightarrow>
              snd (EnsemblRest_init cfg items rh heap kwargs) a \<noteq> heap a)"
proof -
  let ?added = "if heap a ''User-Agent'' = None then ensembl_user_agent cfg
                  else if heap a ''Content-Type'' = None then ensembl_content_type cfg
                  else Map.empty"
  have s: "snd (EnsemblRest_init cfg items rh heap kwargs) = heap(a := heap a ++ ?added)"
    using assms by (simp add: EnsemblRest_init_headers init_headers_caller Let_def)
  have h: "session_headers (fst (EnsemblRest_init cfg items rh heap kwargs)) =
             ci_update rh (items (snd (EnsemblRest_init cfg items rh heap kwargs) a))"
    unfolding s using assms by (simp add: EnsemblRest_init_headers init_headers_caller Let_def)
  have ua: "snd (EnsemblRest_init cfg items rh heap kwargs) a \<noteq> heap a"
    if "heap a ''User-Agent'' = None" "ensembl_user_agent cfg ''User-Agent'' \<noteq> None"
  proof
    assume "snd (EnsemblRest_init cfg items rh heap kwargs) a = heap a"
    then have "(heap a ++ ensembl_user_agent cfg) ''User-Agent'' = heap a ''User-Agent''"
      using that(1) by (simp add: s)
    with that show False by (auto simp: map_add_def split: option.splits)
  qed
  have ct: "snd (EnsemblRest_init cfg items rh heap kwargs) a \<noteq> heap a"
    if "heap a ''User-Agent'' \<noteq> None" "heap a ''Content-Type'' = None"
       "ensembl_content_type cfg ''Content-Type'' \<noteq> None"
  proof
    assume "snd (EnsemblRest_init cfg items rh heap kwargs) a = heap a"
    then have "(heap a ++ ensembl_content_type cfg) ''Content-Type'' = heap a ''Content-Type''"
      using that(1,2) by (simp add: s)
    with that show False by (auto simp: map_add_def split: option.splits)
  qed
  from s h ua ct show ?thesis by blast
qed

text \<open>The dictionary at address 0 has gained the default user agent.\<close>

theorem caller_headers_mutated_witness:
  "example_heap 0 ''User-Agent'' = None
   \<and> snd (EnsemblRest_init example_config example_items Map.empty example_heap
        example_headers_kwargs) 0 ''User-Agent'' = Some ''pyEnsemblRest''
   \<and> snd (EnsemblRest_init example_config example_items Map.empty example_heap
        example_headers_kwargs) 0 \<noteq> example_heap 0"
proof -
  have k: "kw_headers example_headers_kwargs = Some 0"
    by (simp add: example_headers_kwargs_def)
  have a: "example_heap 0 ''User-Agent'' = None"
    by (simp add: example_heap_def)
  have b: "snd (EnsemblRest_init example_config example_items Map.empty example_heap
        example_headers_kwargs) 0 ''User-Agent'' = Some ''pyEnsemblRest''"
    using caller_headers_mutated [OF k, of example_config example_items Map.empty example_heap,
        THEN conjunct1]
    by (simp add: example_heap_def example_config_def)
  have c: "snd (EnsemblRest_init example_config example_items Map.empty example_heap
        example_headers_kwargs) 0 \<noteq> example_heap 0"
    using caller_headers_mutated [OF k, of example_config example_items Map.empty example_heap,
        THEN conjunct2, THEN conjunct2, THEN conjunct1] a
    by (simp add: example_config_def)
  from a b c show ?thesis by (intro conjI)
qed

subsection \<open>Missing mandatory parameters\<close>

lemma find_first_missing:
  "\<forall>y\<in>set ys. \<not> P y \<Longrightarrow> P x \<Longrightarrow> find P (ys @ x # zs) = Some x"
  by (induction ys) simp_all

lemma sublist_join: "x \<in> set xs \<Longrightarrow> sublist x (join sep xs)"
proof (induction sep xs rule: join.induct)
  case (1 sep)
  then show ?case by simp
next
  case (2 sep y)
  then show ?case by simp
next
  case (3 sep y z zs)
  show ?case
  proof (cases "x = y")
    case True
    then show ?thesis by simp
  next
    case False
    with 3 have "sublist x (join sep (z # zs))" by simp
    then obtain ps ss where "join sep (z # zs) = ps @ x @ ss" by (auto simp: sublist_def)
    then have "join sep (y # z # zs) = (y @ sep @ ps) @ x @ ss" by simp
    then show ?thesis unfolding sublist_def by blast
  qed
qed

lemma sublist_py_str_list: "t \<in> set xs \<Longrightarrow> sublist (py_repr t) (py_str_list xs)"
proof -
  assume "t \<in> set xs"
  then have "sublist (py_repr t) (join '', '' (map py_repr xs))"
    by (intro sublist_join) simp
  then obtain ps ss where "join '', '' (map py_repr xs) = ps @ py_repr t @ ss"
    by (auto simp: sublist_def)
  then have "py_str_list xs = (''['' @ ps) @ py_repr t @ (ss @ '']'')"
    by (simp add: py_str_list_def)
  then show ?thesis unfolding sublist_def by blast
qed

lemma prepare_missing:
  assumes "map_of (ensembl_api_table cfg) api_call = Some func"
      and "find (\<lambda>param. kwargs param = None) (re_findall (url func)) = Some param"
  shows "prepare cfg fmt self api_call kwargs =
           (Inl (Exception (''mandatory param '' @ py_repr param @ '' not specified'')),
            [Critical (py_repr param @ '' param not specified. Mandatory params are ''
                       @ py_str_list (re_findall (url func)))])"
  using assms by (simp add: prepare_def Let_def)

text \<open>C1, as the code has it. For a table entry whose template has a placeholder without
  a keyword argument, let \<open>param\<close> be the first such placeholder of the template. The
  call raises \<^verbatim>\<open>Exception\<close> with a message that names \<open>param\<close>, leaves the instance as it
  was and does nothing else than write one critical log record: no sleep, no request.
  That log record, not the message of the exception, names \<open>param\<close> and lists all
  mandatory parameters, so every missing one.\<close>

theorem missing_mandatory_param:
  assumes "map_of (ensembl_api_table cfg) api_call = Some func"
      and "\<exists>t\<in>set (re_findall (url func)). kwargs t = None"
  shows "\<exists>pre param post.
           re_findall (url func) = pre @ param # post
           \<and> (\<forall>p\<in>set pre. kwargs p \<noteq> None) \<and> kwargs param = None
           \<and> call_api_func cfg loads dumps fmt e self api_call kwargs =
               (Inl (Exception (''mandatory param '' @ py_repr param @ '' not specified'')),
                self,
                [Critical (py_repr param @ '' param not specified. Mandatory params are ''
                           @ py_str_list (re_findall (url func)))])
           \<and> (\<forall>t\<in>set (re_findall (url func)).
                 sublist (py_repr t)
                   (py_repr param @ '' param not specified. Mandatory params are ''
                    @ py_str_list (re_findall (url func))))"
proof -
  from split_list_first_prop [OF assms(2)]
  obtain pre param post where split: "re_findall (url func) = pre @ param # post"
    and param: "kwargs param = None" and pre: "\<forall>p\<in>set pre. kwargs p \<noteq> None"
    by blast
  have "find (\<lambda>param. kwargs param = None) (re_findall (url func)) = Some param"
    unfolding split using pre param by (intro find_first_missing) simp_all
  from prepare_missing [OF assms(1) this, where fmt = fmt and self = self]
  have call: "call_api_func cfg loads dumps fmt e self api_call kwargs =
               (Inl (Exception (''mandatory param '' @ py_repr param @ '' not specified'')),
                self,
                [Critical (py_repr param @ '' param not specified. Mandatory params are ''
                           @ py_str_list (re_findall (url func)))])"
    by (simp add: call_api_func_def)
  have listed: "sublist (py_repr t)
                   (py_repr param @ '' param not specified. Mandatory params are ''
                    @ py_str_list (re_findall (url func)))"
    if "t \<in> set (re_findall (url func))" for t
  proof -
    from sublist_py_str_list [OF that]
    obtain ps ss where "py_str_list (re_findall (url func)) = ps @ py_repr t @ ss"
      by (auto simp: sublist_def)
    then have "py_repr param @ '' param not specified. Mandatory params are ''
                    @ py_str_list (re_findall (url func)) =
               (py_repr param @ '' param not specified. Mandatory params are '' @ ps)
                 @ py_repr t @ ss" by simp
    then show ?thesis unfolding sublist_def by blast
  qed
  from split pre param call listed show ?thesis by blast
qed

lemma example_tokens_lookup_symbol:
  "re_findall ''/lookup/symbol/{{species}}/{{symbol}}'' = [''species'', ''symbol'']"
  by (simp add: match_token_def is_ident_def ident_chars_def)

lemma example_table_lookup_symbol:
  "map_of (ensembl_api_table example_config) ''lookup_symbol'' =
     Some \<lparr>http_method = ''GET'', url = ''/lookup/symbol/{{species}}/{{symbol}}'',
           content_type = ''application/json'', doc = None\<rparr>"
  by (simp add: example_config_def)

text \<open>Both parameters of \<^verbatim>\<open>lookup_symbol\<close> missing: the message of the exception names
  \<^verbatim>\<open>species\<close> and does not mention \<^verbatim>\<open>symbol\<close>.\<close>

theorem missing_mandatory_param_counterexample:
  "call_api_func example_config example_loads Map.empty Inr (example_env 1000 200 []) example_self
     ''lookup_symbol'' (Map.empty :: string \<rightharpoonup> string) =
     (Inl (Exception ''mandatory param 'species' not specified''), example_self,
      [Critical (CHR 0x27 # ''species' param not specified. Mandatory params are ['species', 'symbol']'')])
   \<and> \<not> sublist ''symbol'' ''mandatory param 'species' not specified''"
proof
  show "call_api_func example_config example_loads Map.empty Inr (example_env 1000 200 []) example_self
     ''lookup_symbol'' (Map.empty :: string \<rightharpoonup> string) =
     (Inl (Exception ''mandatory param 'species' not specified''), example_self,
      [Critical (CHR 0x27 # ''species' param not specified. Mandatory params are ['species', 'symbol']'')])"
    by (simp add: example_config_def call_defs)
next
  show "\<not> sublist ''symbol'' ''mandatory param 'species' not specified''"
    by (simp add: sublist_code)
qed


text \<open>\<^verbatim>\<open>species\<close> given and \<^verbatim>\<open>symbol\<close> missing.\<close>

theorem missing_mandatory_param_witness:
  "call_api_func example_config example_loads Map.empty Inr (example_env 1000 200 []) example_self
     ''lookup_symbol'' [''species'' \<mapsto> ''homo_sapiens''] =
     (Inl (Exception ''mandatory param 'symbol' not specified''), example_self,
      [Critical (CHR 0x27 # ''symbol' param not specified. Mandatory params are ['species', 'symbol']'')])"
proof -
  let ?kwargs = "[''species'' \<mapsto> ''homo_sapiens'']"
  let ?func = "\<lparr>http_method = ''GET'', url = ''/lookup/symbol/{{species}}/{{symbol}}'',
           content_type = ''application/json'', doc = None\<rparr>"
  have tokens: "re_findall (url ?func) = [''species'', ''symbol'']"
    by (simp add: match_token_def is_ident_def ident_chars_def)
  have missing: "\<exists>t\<in>set (re_findall (url ?func)). ?kwargs t = None"
    unfolding tokens by simp
  from missing_mandatory_param [OF example_table_lookup_symbol missing,
      where loads = example_loads and dumps = Map.empty and fmt = Inr
        and e = "example_env 1000 200 []" and self = example_self]
  obtain pre param post where split: "re_findall (url ?func) = pre @ param # post"
    and param: "?kwargs param = None"
    and call: "call_api_func example_config example_loads Map.empty Inr (example_env 1000 200 []) example_self
          ''lookup_symbol'' ?kwargs =
        (Inl (Exception (''mandatory param '' @ py_repr param @ '' not specified'')),
         example_self,
         [Critical (py_repr param @ '' param not specified. Mandatory params are ''
                    @ py_str_list (re_findall (url ?func)))])"
    by blast
  from split have "param \<in> set (re_findall (url ?func))" by simp
  with param have "param = ''symbol''"
    unfolding tokens by (auto split: if_splits)
  with call show ?thesis
    unfolding tokens by (simp add: py_repr_def py_str_list_def)
qed

subsection \<open>URL resolution\<close>

lemma resolve_url_render:
  assumes "well_formed segs"
      and "\<forall>t\<in>set (spec_tokens segs). \<exists>v. kwargs t = Some v \<and> fmt v = Inr (str_of t)"
      and "CHR ''{'' \<notin> set base"
  shows "resolve_url fmt base (spec_render segs) kwargs =
           Inr (base @ spec_substitute str_of segs)"
proof -
  have "\<forall>t\<in>set (spec_tokens segs). repl_of fmt kwargs t = Inr (str_of t)"
    using assms(2) by (auto simp: repl_of_def)
  with assms(1) have "re_sub (repl_of fmt kwargs) (spec_render segs) =
      Inr (spec_substitute str_of segs)"
    by (rule re_sub_render)
  with assms(3) show ?thesis
    by (simp add: resolve_url_def re_sub_literal)
qed

lemma prepare_render:
  assumes "map_of (ensembl_api_table cfg) api_call = Some func"
      and "url func = spec_render segs" and "well_formed segs"
      and "distinct (spec_tokens segs)"
      and "\<forall>t\<in>set (spec_tokens segs). \<exists>v. kwargs t = Some v \<and> fmt v = Inr (str_of t)"
      and "CHR ''{'' \<notin> set (session_base_url self)"
  shows "prepare cfg fmt self api_call kwargs =
           (Inr (func,
                 session_base_url self @ spec_substitute str_of segs,
                 kwargs |` (- set (spec_tokens segs))), [])"
proof -
  have supplied: "\<forall>t\<in>set (spec_tokens segs). kwargs t \<noteq> None"
    using assms(5) by auto
  have tokens: "re_findall (url func) = spec_tokens segs"
    using assms(2,3) by (simp add: re_findall_render)
  have none: "find (\<lambda>param. kwargs param = None) (spec_tokens segs) = None"
    using supplied by (rule find_None_supplied)
  have del: "del_params (spec_tokens segs) kwargs = Inr (kwargs |` (- set (spec_tokens segs)))"
    using assms(4) supplied by (rule del_params_all)
  have u: "resolve_url fmt (session_base_url self) (url func) kwargs =
      Inr (session_base_url self @ spec_substitute str_of segs)"
    unfolding assms(2) using assms(3,5,6) by (rule resolve_url_render)
  show ?thesis
    by (simp add: prepare_def assms(1) tokens none del u Let_def)
qed

lemma call_events:
  assumes "prepare cfg fmt self api_call kwargs = (Inr (func, u, kwargs'), logged)"
  shows "snd (snd (call_api_func cfg loads dumps fmt e self api_call kwargs)) =
           logged @ snd (throttle e self) @
           (if http_method func = ''GET''
            then [Get u [''Content-Type'' \<mapsto> content_type func] kwargs']
            else if http_method func = ''POST'' \<and> dumps kwargs' = None
            then [Post u [''Content-Type'' \<mapsto> content_type func] kwargs']
            else [])"
  using assms
  by (simp add: call_api_func_def send_def perform_def Let_def split: prod.splits option.splits)

text \<open>C3, as the code has it. Let the template of the entry be a well-formed template that
  names no placeholder twice, let every placeholder have a keyword argument whose value
  \<^verbatim>\<open>"%s"\<close> formats (\<open>str_of\<close> gives the string for each placeholder), and let the base URL
  of the session contain no opening brace (the substitution runs over the base URL and
  the template as one string). Then the preparation succeeds; the URL is the base URL
  followed by the template with every placeholder replaced by the string form of its
  argument; the remaining arguments are the arguments without the placeholders, all
  others unchanged; and the request sent after the rate-limit step, a GET or a POST whose
  remaining arguments \<^verbatim>\<open>json.dumps\<close> serialises, carries this URL and these remaining
  arguments.\<close>

theorem url_resolution:
  assumes "map_of (ensembl_api_table cfg) api_call = Some func"
      and "url func = spec_render segs" and "well_formed segs"
      and "distinct (spec_tokens segs)"
      and "\<forall>t\<in>set (spec_tokens segs). \<exists>v. kwargs t = Some v \<and> fmt v = Inr (str_of t)"
      and "CHR ''{'' \<notin> set (session_base_url self)"
  shows "prepare cfg fmt self api_call kwargs =
           (Inr (func,
                 session_base_url self @ spec_substitute str_of segs,
                 kwargs |` (- set (spec_tokens segs))), [])
       \<and> snd (snd (call_api_func cfg loads dumps fmt e self api_call kwargs)) =
           snd (throttle e self) @
           (if http_method func = ''GET''
            then [Get (session_base_url self @ spec_substitute str_of segs)
                    [''Content-Type'' \<mapsto> content_type func]
                    (kwargs |` (- set (spec_tokens segs)))]
            else if http_method func = ''POST'' \<and> dumps (kwargs |` (- set (spec_tokens segs))) = None
            then [Post (session_base_url self @ spec_substitute str_of segs)
                    [''Content-Type'' \<mapsto> content_type func]
                    (kwargs |` (- set (spec_tokens segs)))]
            else [])
       \<and> (\<forall>t\<in>set (spec_tokens segs). (kwargs |` (- set (spec_tokens segs))) t = None)
       \<and> (\<forall>k. k \<notin> set (spec_tokens segs) \<longrightarrow> (kwargs |` (- set (spec_tokens segs))) k = kwargs k)"
proof -
  note p = prepare_render [OF assms]
  from call_events [OF p, where loads = loads and e = e and dumps = dumps]
  have "snd (snd (call_api_func cfg loads dumps fmt e self api_call kwargs)) =
           snd (throttle e self) @
           (if http_method func = ''GET''
            then [Get (session_base_url self @ spec_substitute str_of segs)
                    [''Content-Type'' \<mapsto> content_type func]
                    (kwargs |` (- set (spec_tokens segs)))]
            else if http_method func = ''POST'' \<and> dumps (kwargs |` (- set (spec_tokens segs))) = None
            then [Post (session_base_url self @ spec_substitute str_of segs)
                    [''Content-Type'' \<mapsto> content_type func]
                    (kwargs |` (- set (spec_tokens segs)))]
            else [])"
    by simp
  with p show ?thesis by (simp add: restrict_map_def)
qed

lemma example_table_lookup:
  "map_of (ensembl_api_table example_config) ''lookup'' =
     Some \<lparr>http_method = ''GET'', url = ''/lookup/{{id}}'',
           content_type = ''application/json'', doc = Some ''Find an identifier''\<rparr>"
  by (simp add: example_config_def)

text \<open>The template \<^verbatim>\<open>/lookup/{{id}}\<close> with \<^verbatim>\<open>id="ENSG001"\<close> and one more argument.\<close>

theorem url_resolution_witness:
  "snd (snd (call_api_func example_config example_loads Map.empty Inr
       (example_env 1000 200 ''{}'') example_self ''lookup''
       [''id'' \<mapsto> ''ENSG001'', ''expand'' \<mapsto> ''1''])) =
     [Get ''http://rest.ensembl.org/lookup/ENSG001'' [''Content-Type'' \<mapsto> ''application/json'']
        [''expand'' \<mapsto> ''1'']]"
proof -
  let ?segs = "[Lit ''/lookup/'', Tok ''id'']"
  let ?kwargs = "[''id'' \<mapsto> ''ENSG001'', ''expand'' \<mapsto> ''1'']"
  have 2: "url \<lparr>http_method = ''GET'', url = ''/lookup/{{id}}'',
           content_type = ''application/json'', doc = Some ''Find an identifier''\<rparr> =
           spec_render ?segs" by simp
  have 3: "well_formed ?segs" by (simp add: is_ident_def ident_chars_def)
  have 4: "distinct (spec_tokens ?segs)" by simp
  have 5: "\<forall>t\<in>set (spec_tokens ?segs).
      \<exists>v. ?kwargs t = Some v \<and> (Inr v :: pyexn + string) = Inr ((\<lambda>t. ''ENSG001'') t)"
    by simp
  have 6: "CHR ''{'' \<notin> set (session_base_url example_self)" by (simp add: example_self_eq)
  have r: "?kwargs |` (- set (spec_tokens ?segs)) = [''expand'' \<mapsto> ''1'']"
    by (rule ext) (simp add: restrict_map_def)
  have t: "snd (throttle (example_env 1000 200 ''{}'') example_self) = ([] :: string event list)"
    by (simp add: throttle_def example_self_eq)
  have s: "spec_substitute (\<lambda>t. ''ENSG001'') ?segs = ''/lookup/ENSG001''"
    by simp
  have b: "session_base_url example_self = ''http://rest.ensembl.org''"
    by (simp add: example_self_eq)
  from url_resolution [where fmt = Inr and str_of = "\<lambda>t. ''ENSG001''" and dumps = Map.empty
      and loads = example_loads and e = "example_env 1000 200 ''{}''",
      OF example_table_lookup 2 3 4 5 6, THEN conjunct2, THEN conjunct1]
  show ?thesis
    unfolding r t s b by (simp del: fun_upd_apply)
qed

text \<open>A base URL with a placeholder of its own: the URL requested is not the base URL
  followed by the resolved template. And a tuple of two strings as the value of the
  placeholder: the conversion raises \<^verbatim>\<open>TypeError\<close>, no URL is resolved and nothing is
  sent.\<close>

theorem url_resolution_counterexample:
  "snd (snd (call_api_func example_config example_loads Map.empty Inr
       (example_env 1000 200 ''{}'')
       (example_self\<lparr>session_base_url := ''http://{{server}}.ensembl.org''\<rparr>)
       ''lookup'' [''id'' \<mapsto> ''ENSG001''])) =
     [Get ''http://None.ensembl.org/lookup/ENSG001'' [''Content-Type'' \<mapsto> ''application/json'']
        Map.empty]
   \<and> ''http://None.ensembl.org/lookup/ENSG001'' \<noteq> ''http://{{server}}.ensembl.org'' @ ''/lookup/ENSG001''
   \<and> call_api_func example_config example_loads Map.empty py_format
       (example_env 1000 200 ''{}'') example_self ''lookup''
       [''id'' \<mapsto> PyTuple [''ENSG001'', ''ENSG002'']] =
     (Inl TypeError, example_self, [])"
  by (simp add: example_self_eq example_config_def example_env_def call_defs)

subsection \<open>The rate limit\<close>

lemma sleeps_simps [simp]:
  "sleeps [] = []"
  "sleeps (Sleep d # evs) = d # sleeps evs"
  "sleeps (Critical m # evs) = sleeps evs"
  "sleeps (Get u h p # evs) = sleeps evs"
  "sleeps (Post u h p # evs) = sleeps evs"
  "sleeps (xs @ ys) = sleeps xs @ sleeps ys"
  by (simp_all add: sleeps_def)

lemma prepare_logged:
  assumes "prepare cfg fmt self api_call kwargs = (r, logged)"
  shows "sleeps logged = []" and "r = Inr x \<Longrightarrow> logged = []"
  using assms
  by (auto simp: prepare_def Let_def split: option.splits sum.splits)

lemma throttle_props:
  assumes "throttle e self = (self1, slept)"
  shows "reqs_per_sec self1 = reqs_per_sec self"
    and "last_req self1 = (if req_count self \<ge> reqs_per_sec self then time_reset e else last_req self)"
    and "req_count self1 = (if req_count self \<ge> reqs_per_sec self then 0 else req_count self)"
    and "slept = (if req_count self \<ge> reqs_per_sec self \<and> time_check e - last_req self < 1
                  then [Sleep (1 - (time_check e - last_req self))] else [])"
  using assms by (auto simp: throttle_def Let_def split: if_splits)

lemma send_props:
  assumes "send cfg loads dumps e self1 func u kw = (result, self2, sent)"
  shows "reqs_per_sec self2 = reqs_per_sec self1"
    and "last_req self2 = last_req self1"
    and "req_count self2 = req_count self1 +
           (if (http_method func = ''GET'' \<or> (http_method func = ''POST'' \<and> dumps kw = None))
               \<and> reply e \<noteq> None
            then 1 else 0)"
    and "sent = (if http_method func = ''GET''
                 then [Get u [''Content-Type'' \<mapsto> content_type func] kw]
                 else if http_method func = ''POST'' \<and> dumps kw = None
                 then [Post u [''Content-Type'' \<mapsto> content_type func] kw]
                 else [])"
  using assms by (auto simp: send_def perform_def Let_def split: option.splits if_splits)

lemma call_prepared:
  fixes self :: "'a EnsemblRest" and kwargs :: "'v kwargs"
  assumes "prepare cfg fmt self api_call kwargs = (Inr (func, u, kw), logged)"
      and "call_api_func cfg loads dumps fmt e self api_call kwargs = (result, self', evs)"
  shows "reqs_per_sec self' = reqs_per_sec self"
    and "last_req self' = (if req_count self \<ge> reqs_per_sec self then time_reset e else last_req self)"
    and "req_count self' = (if req_count self \<ge> reqs_per_sec self then 0 else req_count self) +
           (if (http_method func = ''GET'' \<or> (http_method func = ''POST'' \<and> dumps kw = None))
               \<and> reply e \<noteq> None
            then 1 else 0)"
    and "evs = (if req_count self \<ge> reqs_per_sec self \<and> time_check e - last_req self < 1
                then [Sleep (1 - (time_check e - last_req self))] else []) @
               (if http_method func = ''GET''
                then [Get u [''Content-Type'' \<mapsto> content_type func] kw]
                else if http_method func = ''POST'' \<and> dumps kw = None
                then [Post u [''Content-Type'' \<mapsto> content_type func] kw]
                else [])"
proof -
  obtain self1 and slept :: "'v event list" where t: "throttle e self = (self1, slept)"
    by (cases "throttle e self :: 'a EnsemblRest \<times> 'v event list") auto
  obtain r self2 sent where s: "send cfg loads dumps e self1 func u kw = (r, self2, sent)"
    by (cases "send cfg loads dumps e self1 func u kw") auto
  from prepare_logged(2) [OF assms(1)] have l: "logged = []" by simp
  from assms t s l have res: "self' = self2" "evs = slept @ sent"
    by (simp_all add: call_api_func_def)
  note tp = throttle_props [OF t] and sp = send_props [OF s]
  show "reqs_per_sec self' = reqs_per_sec self" by (simp add: res tp sp)
  show "last_req self' = (if req_count self \<ge> reqs_per_sec self then time_reset e else last_req self)"
    by (simp add: res sp tp(2))
  show "req_count self' = (if req_count self \<ge> reqs_per_sec self then 0 else req_count self) +
           (if (http_method func = ''GET'' \<or> (http_method func = ''POST'' \<and> dumps kw = None))
               \<and> reply e \<noteq> None
            then 1 else 0)"
    by (simp only: res sp(3) tp(3))
  show "evs = (if req_count self \<ge> reqs_per_sec self \<and> time_check e - last_req self < 1
                then [Sleep (1 - (time_check e - last_req self))] else []) @
               (if http_method func = ''GET''
                then [Get u [''Content-Type'' \<mapsto> content_type func] kw]
                else if http_method func = ''POST'' \<and> dumps kw = None
                then [Post u [''Content-Type'' \<mapsto> content_type func] kw]
                else [])"
    by (simp only: res sp(4) tp(4))
qed

lemma call_failed:
  assumes "prepare cfg fmt self api_call kwargs = (Inl ex, logged)"
      and "call_api_func cfg loads dumps fmt e self api_call kwargs = (result, self', evs)"
  shows "self' = self" and "sleeps evs = []"
  using assms prepare_logged(1) [OF assms(1)] by (auto simp: call_api_func_def)

text \<open>The invariant of a sequence of spaced calls, at the time \<open>t\<close> of the next call.\<close>

lemma call_step:
  assumes call: "call_api_func cfg loads dumps fmt e self api_call kwargs = (result, self', evs)"
      and limit: "2 \<le> reqs_per_sec self"
      and inv: "last_req self + 1 \<le> time_check e
                \<or> (last_req self \<le> time_check e \<and> req_count self < reqs_per_sec self)"
      and mono: "time_check e \<le> time_reset e" "time_reset e \<le> t" "time_check e + 1 < t"
  shows "sleeps evs = []"
    and "reqs_per_sec self' = reqs_per_sec self"
    and "last_req self' + 1 \<le> t \<or> (last_req self' \<le> t \<and> req_count self' < reqs_per_sec self')"
proof -
  obtain r logged where p: "prepare cfg fmt self api_call kwargs = (r, logged)"
    by (cases "prepare cfg fmt self api_call kwargs") auto
  show "sleeps evs = []"
  proof (cases r)
    case (Inl ex)
    with p call show ?thesis by (auto dest: call_failed(2))
  next
    case (Inr x)
    obtain func u kw where "x = (func, u, kw)" by (cases x) auto
    with p Inr have p': "prepare cfg fmt self api_call kwargs = (Inr (func, u, kw), logged)" by simp
    from inv have "\<not> (req_count self \<ge> reqs_per_sec self \<and> time_check e - last_req self < 1)"
      by auto
    with call_prepared(4) [OF p' call] show ?thesis by (simp split: if_splits)
  qed
  show "reqs_per_sec self' = reqs_per_sec self"
  proof (cases r)
    case (Inl ex)
    with p call show ?thesis by (auto dest: call_failed(1))
  next
    case (Inr x)
    obtain func u kw where "x = (func, u, kw)" by (cases x) auto
    with p Inr have p': "prepare cfg fmt self api_call kwargs = (Inr (func, u, kw), logged)" by simp
    from call_prepared(1) [OF p' call] show ?thesis .
  qed
  show "last_req self' + 1 \<le> t \<or> (last_req self' \<le> t \<and> req_count self' < reqs_per_sec self')"
  proof (cases r)
    case (Inl ex)
    with p call have "self' = self" by (auto dest: call_failed(1))
    with inv mono show ?thesis by auto
  next
    case (Inr x)
    obtain func u kw where "x = (func, u, kw)" by (cases x) auto
    with p Inr have p': "prepare cfg fmt self api_call kwargs = (Inr (func, u, kw), logged)" by simp
    note cp = call_prepared [OF p' call]
    show ?thesis
    proof (cases "req_count self \<ge> reqs_per_sec self")
      case True
      with cp(2) have "last_req self' = time_reset e" by simp
      moreover from True cp(3) have "req_count self' \<le> 1" by (simp split: if_splits)
      ultimately show ?thesis using mono limit cp(1) by auto
    next
      case False
      with cp(2) have "last_req self' = last_req self" by simp
      with inv mono show ?thesis by auto
    qed
  qed
qed

lemma run_calls_never_sleep:
  "spaced (map fst calls) \<Longrightarrow> 2 \<le> reqs_per_sec self \<Longrightarrow>
   (calls \<noteq> [] \<Longrightarrow>
      last_req self + 1 \<le> time_check (fst (hd calls))
      \<or> (last_req self \<le> time_check (fst (hd calls)) \<and> req_count self < reqs_per_sec self)) \<Longrightarrow>
   sleeps (run_calls cfg loads dumps fmt self calls) = []"
proof (induction calls arbitrary: self)
  case Nil
  then show ?case by simp
next
  case (Cons c calls)
  obtain e api_call kwargs where c: "c = (e, api_call, kwargs)" by (cases c) auto
  obtain result self' evs where
    call: "call_api_func cfg loads dumps fmt e self api_call kwargs = (result, self', evs)"
    by (cases "call_api_func cfg loads dumps fmt e self api_call kwargs") auto
  from Cons.prems(3) c have inv: "last_req self + 1 \<le> time_check e
      \<or> (last_req self \<le> time_check e \<and> req_count self < reqs_per_sec self)" by simp
  show ?case
  proof (cases calls)
    case Nil
    from Cons.prems(1) c Nil have mono: "time_check e \<le> time_reset e" by simp
    from call_step(1) [OF call Cons.prems(2) inv mono, of "time_reset e + 2"] mono
    have "sleeps evs = []" by simp
    with c call Nil show ?thesis by simp
  next
    case (Cons c2 rest)
    obtain e2 a2 k2 where c2: "c2 = (e2, a2, k2)" by (cases c2) auto
    from Cons.prems(1) c Cons c2
    have mono: "time_check e \<le> time_reset e" "time_reset e \<le> time_check e2"
      "time_check e + 1 < time_check e2" and sp: "spaced (map fst calls)"
      by simp_all
    note st = call_step [OF call Cons.prems(2) inv mono]
    from st(2) Cons.prems(2) have lim: "2 \<le> reqs_per_sec self'" by simp
    from st(3) Cons c2 have inv': "calls \<noteq> [] \<Longrightarrow>
      last_req self' + 1 \<le> time_check (fst (hd calls))
      \<or> (last_req self' \<le> time_check (fst (hd calls)) \<and> req_count self' < reqs_per_sec self')"
      by simp
    from Cons.IH [OF sp lim inv'] have "sleeps (run_calls cfg loads dumps fmt self' calls) = []" .
    with st(1) c call show ?thesis by simp
  qed
qed


text \<open>C4. For a call that passes the preparation: when the request count has reached the
  limit and less than one second has passed since the last reset, the first event of the
  call is a sleep of exactly one second minus the time passed, and the request (a GET, or
  a POST whose arguments \<^verbatim>\<open>json.dumps\<close> serialises) follows it; when at least one second has passed there is no sleep; in both cases the time of
  the last reset becomes the clock reading taken after the sleep and the count restarts
  at zero (plus one for the request of this call once it is answered). Below the limit
  there is no sleep and no reset. Moreover, on an instance with a limit of at least 2
  whose last reset is not in the future (or is at least one second old when the limit has
  been reached), no call of a sequence of spaced calls sleeps. Time is a real number
  here; the rounding of Python's floats is not modelled.\<close>

theorem rate_limit:
  fixes self :: "'a EnsemblRest" and kwargs :: "'v kwargs"
  shows
    "(\<forall>func u kw logged result self' evs.
        prepare cfg fmt self api_call kwargs = (Inr (func, u, kw), logged) \<and>
        call_api_func cfg loads dumps fmt e self api_call kwargs = (result, self', evs) \<longrightarrow>
          evs = (if req_count self \<ge> reqs_per_sec self \<and> time_check e - last_req self < 1
                 then [Sleep (1 - (time_check e - last_req self))] else []) @
                (if http_method func = ''GET''
                 then [Get u [''Content-Type'' \<mapsto> content_type func] kw]
                 else if http_method func = ''POST'' \<and> dumps kw = None
                 then [Post u [''Content-Type'' \<mapsto> content_type func] kw]
                 else [])
          \<and> last_req self' =
              (if req_count self \<ge> reqs_per_sec self then time_reset e else last_req self)
          \<and> req_count self' =
              (if req_count self \<ge> reqs_per_sec self then 0 else req_count self) +
              (if (http_method func = ''GET'' \<or> (http_method func = ''POST'' \<and> dumps kw = None))
               \<and> reply e \<noteq> None
               then 1 else 0))
     \<and> (spaced (map fst calls) \<and> 2 \<le> reqs_per_sec self \<and>
          (calls \<noteq> [] \<longrightarrow>
             last_req self + 1 \<le> time_check (fst (hd calls))
             \<or> (last_req self \<le> time_check (fst (hd calls)) \<and> req_count self < reqs_per_sec self)) \<longrightarrow>
          sleeps (run_calls cfg loads dumps fmt self calls) = [])"
proof (intro conjI allI impI)
  fix func u kw and logged :: "'v event list" and result self' evs
  assume a: "prepare cfg fmt self api_call kwargs = (Inr (func, u, kw), logged) \<and>
        call_api_func cfg loads dumps fmt e self api_call kwargs = (result, self', evs)"
  then have p: "prepare cfg fmt self api_call kwargs = (Inr (func, u, kw), logged)"
    and c: "call_api_func cfg loads dumps fmt e self api_call kwargs = (result, self', evs)"
    by simp_all
  show "evs = (if req_count self \<ge> reqs_per_sec self \<and> time_check e - last_req self < 1
                 then [Sleep (1 - (time_check e - last_req self))] else []) @
                (if http_method func = ''GET''
                 then [Get u [''Content-Type'' \<mapsto> content_type func] kw]
                 else if http_method func = ''POST'' \<and> dumps kw = None
                 then [Post u [''Content-Type'' \<mapsto> content_type func] kw]
                 else [])"
    by (rule call_prepared(4) [where dumps = dumps, OF p c])
  show "last_req self' =
              (if req_count self \<ge> reqs_per_sec self then time_reset e else last_req self)"
    by (rule call_prepared(2) [where dumps = dumps, OF p c])
  show "req_count self' =
              (if req_count self \<ge> reqs_per_sec self then 0 else req_count self) +
              (if (http_method func = ''GET'' \<or> (http_method func = ''POST'' \<and> dumps kw = None))
               \<and> reply e \<noteq> None
               then 1 else 0)"
    by (rule call_prepared(3) [where dumps = dumps, OF p c])
next
  assume a: "spaced (map fst calls) \<and> 2 \<le> reqs_per_sec self \<and>
          (calls \<noteq> [] \<longrightarrow>
             last_req self + 1 \<le> time_check (fst (hd calls))
             \<or> (last_req self \<le> time_check (fst (hd calls)) \<and> req_count self < reqs_per_sec self))"
  then show "sleeps (run_calls cfg loads dumps fmt self calls) = []"
    by (intro run_calls_never_sleep) simp_all
qed

lemma example_prepare_busy:
  "prepare example_config Inr example_busy ''lookup'' [''id'' \<mapsto> ''ENSG001''] =
     (Inr (\<lparr>http_method = ''GET'', url = ''/lookup/{{id}}'',
             content_type = ''application/json'', doc = Some ''Find an identifier''\<rparr>,
           ''http://rest.ensembl.org/lookup/ENSG001'', Map.empty), [])"
  by (simp add: example_busy_def example_self_eq example_config_def call_defs)

text \<open>A call a quarter of a second after the reset of a full counter sleeps three quarters
  of a second; three calls two seconds apart on a new instance do not sleep.\<close>

theorem rate_limit_witness:
  "(case call_api_func example_config example_loads Map.empty Inr
          \<lparr>time_check = 4001 / 4, time_reset = 1001,
           reply = Some \<lparr>status_code = 200, body_text = ''{}''\<rparr>\<rparr>
          example_busy ''lookup'' [''id'' \<mapsto> ''ENSG001''] of
      (result, self', evs) \<Rightarrow>
        evs = [Sleep (3 / 4),
               Get ''http://rest.ensembl.org/lookup/ENSG001''
                 [''Content-Type'' \<mapsto> ''application/json''] Map.empty]
        \<and> last_req self' = 1001 \<and> req_count self' = 1)
   \<and> sleeps (run_calls example_config example_loads Map.empty Inr example_self
        [(example_env 10 200 ''{}'', ''lookup'', [''id'' \<mapsto> ''ENSG001'']),
         (example_env 12 200 ''{}'', ''lookup'', Map.empty),
         (example_env 14 404 ''{}'', ''lookup'', [''id'' \<mapsto> ''ENSG002''])]) = []"
proof
  let ?e = "\<lparr>time_check = 4001 / 4, time_reset = 1001,
           reply = Some \<lparr>status_code = 200, body_text = ''{}''\<rparr>\<rparr>"
  let ?call = "call_api_func example_config example_loads Map.empty Inr ?e example_busy ''lookup''
      [''id'' \<mapsto> ''ENSG001'']"
  have c: "?call = (fst ?call, fst (snd ?call), snd (snd ?call))" by simp
  from rate_limit [where cfg = example_config and fmt = Inr and self = example_busy
      and api_call = "''lookup''" and kwargs = "[''id'' \<mapsto> ''ENSG001'']"
      and loads = example_loads and dumps = Map.empty and e = ?e,
      THEN conjunct1, rule_format, OF conjI, OF example_prepare_busy c]
  have "snd (snd ?call) = [Sleep (3 / 4),
               Get ''http://rest.ensembl.org/lookup/ENSG001''
                 [''Content-Type'' \<mapsto> ''application/json''] Map.empty]
        \<and> last_req (fst (snd ?call)) = 1001 \<and> req_count (fst (snd ?call)) = 1"
    by (simp add: example_busy_def example_self_eq)
  then show "case ?call of
      (result, self', evs) \<Rightarrow>
        evs = [Sleep (3 / 4),
               Get ''http://rest.ensembl.org/lookup/ENSG001''
                 [''Content-Type'' \<mapsto> ''application/json''] Map.empty]
        \<and> last_req self' = 1001 \<and> req_count self' = 1"
    by (simp add: case_prod_beta)
next
  let ?calls = "[(example_env 10 200 ''{}'', ''lookup'', [''id'' \<mapsto> ''ENSG001'']),
         (example_env 12 200 ''{}'', ''lookup'', Map.empty),
         (example_env 14 404 ''{}'', ''lookup'', [''id'' \<mapsto> ''ENSG002''])]"
  have h: "spaced (map fst ?calls) \<and> 2 \<le> reqs_per_sec example_self \<and>
          (?calls \<noteq> [] \<longrightarrow>
             last_req example_self + 1 \<le> time_check (fst (hd ?calls))
             \<or> (last_req example_self \<le> time_check (fst (hd ?calls))
                \<and> req_count example_self < reqs_per_sec example_self))"
    by (simp add: example_env_def example_self_eq)
  from rate_limit [where cfg = example_config and fmt = Inr and self = example_self
      and loads = example_loads and dumps = Map.empty and calls = ?calls,
      THEN conjunct2, rule_format, OF h]
  show "sleeps (run_calls example_config example_loads Map.empty Inr example_self ?calls) = []" .
qed

end
